theory Spec2Isabelle
  imports Complex_Main
begin

section \<open>Strings\<close>

text \<open>
  A JavaScript string is modelled as a \<^typ>\<open>string\<close>: its code units, as far as they lie
  below 256. \<^verbatim>\<open>String.prototype.trim\<close> removes white space and line terminators
  from both ends; the ones in this range are TAB, LF, VT, FF, CR, SPACE and NBSP.
\<close>

definition is_white_space :: "char \<Rightarrow> bool" where
  "is_white_space c =
     (c = CHR 0x09 \<or> c = CHR 0x0A \<or> c = CHR 0x0B \<or> c = CHR 0x0C \<or> c = CHR 0x0D
      \<or> c = CHR 0x20 \<or> c = CHR 0xA0)"

definition trim :: "string \<Rightarrow> string" where
  "trim s = rev (dropWhile is_white_space (rev (dropWhile is_white_space s)))"

text \<open>
  The flag \<^verbatim>\<open>i\<close> of a regular expression without the flag \<^verbatim>\<open>u\<close> folds only
  ASCII letters onto ASCII letters.
\<close>

definition ascii_lower :: "char \<Rightarrow> char" where
  "ascii_lower c =
     (case map_of (zip ''ABCDEFGHIJKLMNOPQRSTUVWXYZ'' ''abcdefghijklmnopqrstuvwxyz'') c of
        None \<Rightarrow> c
      | Some l \<Rightarrow> l)"

text \<open>\<^verbatim>\<open>/^https?:\/\//i.test(s)\<close>\<close>

definition has_http_prefix :: "string \<Rightarrow> bool" where
  "has_http_prefix s =
     (take 7 (map ascii_lower s) = ''http://'' \<or> take 8 (map ascii_lower s) = ''https://'')"

section \<open>The link normalizer (page.tsx)\<close>

text \<open>
  \<^verbatim>\<open>new URL(s)\<close> belongs to the platform. It is a parameter of everything that calls
  it: a function that returns the parsed URL, or \<open>None\<close> where the constructor throws.
  Of the parsed URL the program reads \<^verbatim>\<open>protocol\<close>, \<^verbatim>\<open>hostname\<close> and
  \<^verbatim>\<open>toString()\<close>, which is \<^verbatim>\<open>href\<close>.
\<close>

record url =
  protocol :: string
  hostname :: string
  href :: string

type_synonym url_parser = "string \<Rightarrow> url option"

definition VALID_PROTOCOLS :: "string set" where
  "VALID_PROTOCOLS = {''http:'', ''https:''}"

definition withProtocol :: "string \<Rightarrow> string" where
  "withProtocol trimmed = (if has_http_prefix trimmed then trimmed else ''https://'' @ trimmed)"

definition normalizeUrl :: "url_parser \<Rightarrow> string \<Rightarrow> string option" where
  "normalizeUrl new_URL raw =
     (let trimmed = trim raw in
      if trimmed = [] then None
      else
        (case new_URL (withProtocol trimmed) of
           None \<Rightarrow> None
         | Some parsed \<Rightarrow>
             if protocol parsed \<notin> VALID_PROTOCOLS then None else Some (href parsed)))"

section \<open>Events and the table that stores them\<close>

text \<open>
  \<^verbatim>\<open>type Payload = Record<string, string | number | null>\<close>. A number is kept as a
  rational.
\<close>

datatype jsvalue = JString string | JNumber rat | JNull

type_synonym payload = "string \<rightharpoonup> jsvalue"

text \<open>
  \<^verbatim>\<open>interface AnalyticsBody\<close>: every member is optional. The declared type of
  \<^verbatim>\<open>eventType\<close> is the union of three literals, but the body is cast to the interface
  unchecked, so at run time the member holds whatever string the client sent.
\<close>

record AnalyticsBody =
  eventType :: "string option"
  sessionId :: "string option"
  payload :: "payload option"

text \<open>
  A row of \<^verbatim>\<open>public.analytics_events\<close> (schema.sql). \<^verbatim>\<open>created_at\<close> is an instant,
  in microseconds since the epoch. The generated primary key is read by nothing and is
  left out.
\<close>

record analytics_event =
  col_created_at :: int
  col_event_type :: string
  col_session_id :: string
  col_payload :: payload
  col_ip_hash :: string
  col_user_agent :: "string option"
  col_referrer :: "string option"

text \<open>The check constraint on \<^verbatim>\<open>event_type\<close>.\<close>

definition event_type_check :: "string \<Rightarrow> bool" where
  "event_type_check e = (e \<in> {''page_visit'', ''qr_generated'', ''qr_downloaded''})"

text \<open>The object handed to \<^verbatim>\<open>.insert({...})\<close>.\<close>

record new_event =
  ins_event_type :: string
  ins_session_id :: string
  ins_payload :: payload
  ins_ip_hash :: string
  ins_user_agent :: string
  ins_referrer :: "string option"

text \<open>
  The three requests the two programs send to the store: the insert of a row, the
  select of the newest rows, and the count of the rows of a kind that were created at
  or after an instant (a time value, in milliseconds).
\<close>

datatype store_request =
    InsertRow new_event
  | SelectRecent
  | CountRows string int

text \<open>
  The hosted store as the admin client reaches it: the rows of the table in the order
  of their insertion, the store's clock (the default of \<^verbatim>\<open>created_at\<close> is
  \<^verbatim>\<open>now()\<close>), and \<open>fault\<close>, the error the store answers a request with where it
  does not serve it for a reason that the schema does not show: the store cannot be
  reached, the request runs into a time limit, a text or a payload of the row holds a
  character that the column types refuse (U+0000). It is \<open>None\<close> for a request
  that the store serves. The requests of one page fail or succeed one by one.
\<close>

record supabase =
  rows_of :: "analytics_event list"
  clock :: int
  fault :: "store_request \<Rightarrow> string option"

text \<open>
  \<^verbatim>\<open>supabase.from("analytics_events").insert(v)\<close>: the result is the error, or the
  store with the new row. The store refuses the row where it does not serve the
  request (\<open>fault\<close>) and where the row violates the check constraint of the schema;
  the columns that are \<^verbatim>\<open>not null\<close> are given by every caller.
\<close>

definition insert_event :: "supabase \<Rightarrow> new_event \<Rightarrow> string + supabase" where
  "insert_event sb v =
     (case fault sb (InsertRow v) of
        Some msg \<Rightarrow> Inl msg
      | None \<Rightarrow>
          if \<not> event_type_check (ins_event_type v)
          then Inl ''violates check constraint analytics_events_event_type_check''
          else Inr (sb\<lparr>rows_of := rows_of sb @
                 [\<lparr>col_created_at = clock sb,
                   col_event_type = ins_event_type v,
                   col_session_id = ins_session_id v,
                   col_payload = ins_payload v,
                   col_ip_hash = ins_ip_hash v,
                   col_user_agent = Some (ins_user_agent v),
                   col_referrer = ins_referrer v\<rparr>]\<rparr>))"

section \<open>The ingestion endpoint (route.ts)\<close>

text \<open>
  Of a request the handler reads the body and three headers. \<open>json_body\<close> is \<open>None\<close>
  where \<^verbatim>\<open>request.json()\<close> rejects: the handler maps that to \<^verbatim>\<open>null\<close>. A header
  that is not sent is \<open>None\<close>.
\<close>

record request =
  json_body :: "AnalyticsBody option"
  x_forwarded_for :: "string option"
  user_agent_header :: "string option"
  referer :: "string option"

datatype reply = Failure string | Stored bool

record response =
  status :: nat
  reply :: reply

text \<open>A string or \<^verbatim>\<open>undefined\<close> in a condition: the empty string is falsy too.\<close>

definition truthy :: "string option \<Rightarrow> bool" where
  "truthy v = (case v of None \<Rightarrow> False | Some s \<Rightarrow> s \<noteq> [])"

text \<open>\<^verbatim>\<open>body?.eventType\<close> and \<^verbatim>\<open>body?.sessionId\<close>\<close>

definition body_eventType :: "AnalyticsBody option \<Rightarrow> string option" where
  "body_eventType b = (case b of None \<Rightarrow> None | Some x \<Rightarrow> eventType x)"

definition body_sessionId :: "AnalyticsBody option \<Rightarrow> string option" where
  "body_sessionId b = (case b of None \<Rightarrow> None | Some x \<Rightarrow> sessionId x)"

text \<open>
  \<^verbatim>\<open>split(",")\<close> of a string has a first element always, so the \<^verbatim>\<open>??\<close> never
  applies: the address is the text before the first comma, trimmed.
\<close>

definition readIpAddress :: "request \<Rightarrow> string" where
  "readIpAddress r =
     (case x_forwarded_for r of
        None \<Rightarrow> ''unknown''
      | Some xForwardedFor \<Rightarrow>
          if xForwardedFor \<noteq> []
          then trim (takeWhile (\<lambda>c. c \<noteq> CHR '','') xForwardedFor)
          else ''unknown'')"

text \<open>
  \<^verbatim>\<open>createHash("sha256").update(ip).digest("hex")\<close>: the digest is the platform's and
  is a parameter.
\<close>

definition hashIpAddress :: "(string \<Rightarrow> string) \<Rightarrow> string \<Rightarrow> string" where
  "hashIpAddress sha256_hex ip = sha256_hex ip"

text \<open>
  \<^verbatim>\<open>getSupabaseAdminClient()\<close> is \<^verbatim>\<open>null\<close> while the backend is not configured: the
  client is \<open>None\<close> then. The handler returns its response and leaves the store as the
  second component.
\<close>

definition POST :: "(string \<Rightarrow> string) \<Rightarrow> supabase option \<Rightarrow> request \<Rightarrow> response \<times> supabase option" where
  "POST sha256_hex client r =
     (let body = json_body r in
      if \<not> truthy (body_eventType body) \<or> \<not> truthy (body_sessionId body)
      then (\<lparr>status = 400, reply = Failure ''Invalid analytics payload.''\<rparr>, client)
      else
        (case client of
           None \<Rightarrow> (\<lparr>status = 200, reply = Stored False\<rparr>, None)
         | Some sb \<Rightarrow>
             (let ipAddress = readIpAddress r;
                  userAgent = (case user_agent_header r of None \<Rightarrow> ''unknown'' | Some u \<Rightarrow> u)
              in case insert_event sb
                   \<lparr>ins_event_type = the (body_eventType body),
                    ins_session_id = the (body_sessionId body),
                    ins_payload = (case payload (the body) of None \<Rightarrow> Map.empty | Some p \<Rightarrow> p),
                    ins_ip_hash = hashIpAddress sha256_hex ipAddress,
                    ins_user_agent = userAgent,
                    ins_referrer = referer r\<rparr> of
                   Inl err \<Rightarrow> (\<lparr>status = 500, reply = Failure ''Failed to store analytics.''\<rparr>, Some sb)
                 | Inr sb' \<Rightarrow> (\<lparr>status = 200, reply = Stored True\<rparr>, Some sb'))))"

text \<open>The rows a store holds; none while there is no store.\<close>

definition stored_rows :: "supabase option \<Rightarrow> analytics_event list" where
  "stored_rows client = (case client of None \<Rightarrow> [] | Some sb \<Rightarrow> rows_of sb)"

section \<open>The event emitter and the handlers that call it (page.tsx)\<close>

text \<open>
  \<^verbatim>\<open>fetch\<close> settles with a response of some status, rejects, or stays pending.
  \<^verbatim>\<open>trackEvent\<close> awaits it inside \<^verbatim>\<open>try\<close> with an empty \<^verbatim>\<open>catch\<close>.
\<close>

datatype fetch_outcome = Fulfilled nat | Rejected | Pending

datatype completion = Returns | Throws | Hangs

definition trackEvent ::
  "(AnalyticsBody \<Rightarrow> fetch_outcome) \<Rightarrow> string \<Rightarrow> string \<Rightarrow> payload \<Rightarrow> completion" where
  "trackEvent fetch_analytics kind session data =
     (case fetch_analytics \<lparr>eventType = Some kind, sessionId = Some session, payload = Some data\<rparr> of
        Fulfilled _ \<Rightarrow> Returns
      | Rejected \<Rightarrow> Returns
      | Pending \<Rightarrow> Hangs)"

text \<open>
  A handler is the list of what it does, in program order, on the run where everything
  it awaits settles. \<open>AwaitTrack\<close> is \<^verbatim>\<open>await trackEvent(...)\<close>: the handler goes on
  only when the emitter has returned. \<open>VoidTrack\<close> is \<^verbatim>\<open>void trackEvent(...)\<close>: the
  emitter is started and the handler goes on at once.
\<close>

datatype action =
    PreventDefault
  | SetErrorMessage string
  | SetIsBusy bool
  | SetQrPng string
  | SetQrSvg string
  | SetFinalUrl string
  | SetTheme string
  | ApplyTheme string
  | SetSessionId string
  | SetItem string string
  | AwaitRender string
  | AnchorClick string string
  | RevokeObjectURL string
  | AwaitTrack string string payload
  | VoidTrack string string payload

definition QR_SIZE :: rat where
  "QR_SIZE = 320"

definition QR_MARGIN :: rat where
  "QR_MARGIN = 2"

text \<open>
  The effect that runs once on mount: \<open>storedTheme\<close> and \<open>existing\<close> are what
  \<^verbatim>\<open>localStorage.getItem\<close> returns, \<open>prefersDark\<close> what the media query matches,
  \<open>randomUUID\<close> the identifier \<^verbatim>\<open>crypto.randomUUID()\<close> would give.
\<close>

definition onMount :: "string option \<Rightarrow> bool \<Rightarrow> string option \<Rightarrow> string \<Rightarrow> action list" where
  "onMount storedTheme prefersDark existing randomUUID =
     (if storedTheme = Some ''light'' \<or> storedTheme = Some ''dark''
      then (case storedTheme of
              None \<Rightarrow> []
            | Some t \<Rightarrow> [SetTheme t, ApplyTheme t])
      else (let systemTheme = (if prefersDark then ''dark'' else ''light'')
            in [SetTheme systemTheme, ApplyTheme systemTheme]))
     @ (case existing of
          None \<Rightarrow>
            [SetItem ''quickqr_session_id'' randomUUID, SetSessionId randomUUID,
             VoidTrack ''page_visit'' randomUUID Map.empty]
        | Some e \<Rightarrow>
            if e \<noteq> []
            then [SetSessionId e, VoidTrack ''page_visit'' e Map.empty]
            else [SetItem ''quickqr_session_id'' randomUUID, SetSessionId randomUUID,
                  VoidTrack ''page_visit'' randomUUID Map.empty])"

text \<open>
  \<^verbatim>\<open>onGenerate\<close>, with the state the closure reads (\<open>rawLink\<close>, \<open>purpose\<close>,
  \<open>session\<close>) as arguments. \<open>render\<close> is the pair of calls into the QR library under
  \<^verbatim>\<open>Promise.all\<close>: the two outputs, or \<open>None\<close> where one of them rejects.
\<close>

definition generated_payload :: "string \<Rightarrow> string \<Rightarrow> payload" where
  "generated_payload normalized purpose =
     [''destinationUrl'' \<mapsto> JString normalized,
      ''purpose'' \<mapsto> (if purpose \<noteq> [] then JString purpose else JNull),
      ''size'' \<mapsto> JNumber QR_SIZE,
      ''margin'' \<mapsto> JNumber QR_MARGIN]"

definition onGenerate ::
  "url_parser \<Rightarrow> (string \<Rightarrow> (string \<times> string) option) \<Rightarrow> string \<Rightarrow> string \<Rightarrow> string \<Rightarrow> action list" where
  "onGenerate new_URL render rawLink purpose session =
     [PreventDefault, SetErrorMessage []] @
     (case normalizeUrl new_URL rawLink of
        None \<Rightarrow> [SetErrorMessage ''Enter a valid link. Example: https://example.com'']
      | Some normalized \<Rightarrow>
          if normalized = []
          then [SetErrorMessage ''Enter a valid link. Example: https://example.com'']
          else
            [SetIsBusy True, AwaitRender normalized] @
            (case render normalized of
               None \<Rightarrow> [SetErrorMessage ''Could not generate QR code. Try a different URL.'']
             | Some (pngOutput, svgOutput) \<Rightarrow>
                 [SetQrPng pngOutput, SetQrSvg svgOutput, SetFinalUrl normalized] @
                 (if session \<noteq> []
                  then [AwaitTrack ''qr_generated'' session (generated_payload normalized purpose)]
                  else [])) @
            [SetIsBusy False])"

definition downloaded_payload :: "string \<Rightarrow> string \<Rightarrow> payload" where
  "downloaded_payload finalUrl fmt =
     [''destinationUrl'' \<mapsto> JString finalUrl, ''format'' \<mapsto> JString fmt]"

definition onDownloadPng :: "string \<Rightarrow> string \<Rightarrow> string \<Rightarrow> action list" where
  "onDownloadPng qrPng session finalUrl =
     (if qrPng = [] then []
      else
        [AnchorClick qrPng ''quickqr.png''] @
        (if session \<noteq> []
         then [AwaitTrack ''qr_downloaded'' session (downloaded_payload finalUrl ''png'')]
         else []))"

text \<open>\<open>objectUrl\<close> is what \<^verbatim>\<open>URL.createObjectURL\<close> returns for the blob.\<close>

definition onDownloadSvg :: "string \<Rightarrow> string \<Rightarrow> string \<Rightarrow> string \<Rightarrow> action list" where
  "onDownloadSvg objectUrl qrSvg session finalUrl =
     (if qrSvg = [] then []
      else
        [AnchorClick objectUrl ''quickqr.svg'', RevokeObjectURL objectUrl] @
        (if session \<noteq> []
         then [AwaitTrack ''qr_downloaded'' session (downloaded_payload finalUrl ''svg'')]
         else []))"

text \<open>
  What a handler has done when nothing more can happen: it stops for good at an
  awaited emitter call that never returns.
\<close>

fun performed :: "(AnalyticsBody \<Rightarrow> fetch_outcome) \<Rightarrow> action list \<Rightarrow> action list" where
  "performed fetch_analytics [] = []"
| "performed fetch_analytics (AwaitTrack kind session data # rest) =
     AwaitTrack kind session data #
     (if trackEvent fetch_analytics kind session data = Hangs then []
      else performed fetch_analytics rest)"
| "performed fetch_analytics (a # rest) = a # performed fetch_analytics rest"

fun awaits_emitter :: "action \<Rightarrow> bool" where
  "awaits_emitter (AwaitTrack kind session data) = True"
| "awaits_emitter a = False"

section \<open>Dates as the platform computes them\<close>

text \<open>
  A \<^verbatim>\<open>Date\<close> is its time value: milliseconds since the epoch, an integer. The
  operations below are the abstract operations of ECMAScript under their own names;
  \<open>div\<close> and \<open>mod\<close> on \<^typ>\<open>int\<close> are the floor and the modulo the standard uses.
\<close>

definition msPerDay :: int where
  "msPerDay = 86400000"

definition Day :: "int \<Rightarrow> int" where
  "Day t = t div msPerDay"

definition TimeWithinDay :: "int \<Rightarrow> int" where
  "TimeWithinDay t = t mod msPerDay"

definition DaysInYear :: "int \<Rightarrow> int" where
  "DaysInYear y =
     (if y mod 4 \<noteq> 0 then 365
      else if y mod 100 \<noteq> 0 then 366
      else if y mod 400 \<noteq> 0 then 365
      else 366)"

definition DayFromYear :: "int \<Rightarrow> int" where
  "DayFromYear y =
     365 * (y - 1970) + (y - 1969) div 4 - (y - 1901) div 100 + (y - 1601) div 400"

text \<open>
  \<open>YearFromTime t\<close> is the largest year that starts at or before \<open>t\<close>. It is found by
  counting up from a year that starts early enough: no year has more than 366 days or
  fewer than 365.
\<close>

function year_from :: "int \<Rightarrow> int \<Rightarrow> int" where
  "year_from y d = (if DayFromYear (y + 1) \<le> d then year_from (y + 1) d else y)"
  by pat_completeness auto
termination
  by (relation "measure (\<lambda>(y, d). nat (d + 1 - DayFromYear (y + 1)))")
     (auto simp: DayFromYear_def)

definition YearFromTime :: "int \<Rightarrow> int" where
  "YearFromTime t =
     year_from (1970 + (if 0 \<le> Day t then Day t div 366 else Day t div 365)) (Day t)"

definition InLeapYear :: "int \<Rightarrow> bool" where
  "InLeapYear t = (DaysInYear (YearFromTime t) = 366)"

definition DayWithinYear :: "int \<Rightarrow> int" where
  "DayWithinYear t = Day t - DayFromYear (YearFromTime t)"

text \<open>The day of the year on which month \<open>m\<close> (0 to 11) starts.\<close>

definition month_start :: "bool \<Rightarrow> int \<Rightarrow> int" where
  "month_start leap m =
     (if m = 0 then 0
      else if m = 1 then 31
      else (if leap then 1 else 0) +
        (if m = 2 then 59 else if m = 3 then 90 else if m = 4 then 120
         else if m = 5 then 151 else if m = 6 then 181 else if m = 7 then 212
         else if m = 8 then 243 else if m = 9 then 273 else if m = 10 then 304
         else 334))"

definition MonthFromTime :: "int \<Rightarrow> int" where
  "MonthFromTime t =
     (let d = DayWithinYear t; l = (if InLeapYear t then 1 else 0)
      in if d < 31 then 0
         else if d < 59 + l then 1
         else if d < 90 + l then 2
         else if d < 120 + l then 3
         else if d < 151 + l then 4
         else if d < 181 + l then 5
         else if d < 212 + l then 6
         else if d < 243 + l then 7
         else if d < 273 + l then 8
         else if d < 304 + l then 9
         else if d < 334 + l then 10
         else 11)"

definition DateFromTime :: "int \<Rightarrow> int" where
  "DateFromTime t = DayWithinYear t - month_start (InLeapYear t) (MonthFromTime t) + 1"

definition MakeDay :: "int \<Rightarrow> int \<Rightarrow> int \<Rightarrow> int" where
  "MakeDay year month date =
     (let ym = year + month div 12; mn = month mod 12
      in DayFromYear ym + month_start (DaysInYear ym = 366) mn + date - 1)"

definition MakeDate :: "int \<Rightarrow> int \<Rightarrow> int" where
  "MakeDate day time = day * msPerDay + time"

text \<open>
  The local time zone of the process: the offset in force at a UTC time value, and the
  offset the platform picks for a local time value.
\<close>

record time_zone =
  offset_at :: "int \<Rightarrow> int"
  offset_of_local :: "int \<Rightarrow> int"

definition LocalTime :: "time_zone \<Rightarrow> int \<Rightarrow> int" where
  "LocalTime z t = t + offset_at z t"

definition UTC :: "time_zone \<Rightarrow> int \<Rightarrow> int" where
  "UTC z t = t - offset_of_local z t"

text \<open>\<^verbatim>\<open>getDate\<close> and \<^verbatim>\<open>setDate\<close> work on the local time.\<close>

definition getDate :: "time_zone \<Rightarrow> int \<Rightarrow> int" where
  "getDate z t = DateFromTime (LocalTime z t)"

definition setDate :: "time_zone \<Rightarrow> int \<Rightarrow> int \<Rightarrow> int" where
  "setDate z t date =
     (let lt = LocalTime z t
      in UTC z (MakeDate (MakeDay (YearFromTime lt) (MonthFromTime lt) date) (TimeWithinDay lt)))"

text \<open>\<^verbatim>\<open>toISOString\<close> prints the UTC fields.\<close>

definition digit :: "int \<Rightarrow> char" where
  "digit n = ''0123456789'' ! nat n"

definition pad2 :: "int \<Rightarrow> string" where
  "pad2 n = [digit (n div 10 mod 10), digit (n mod 10)]"

definition pad3 :: "int \<Rightarrow> string" where
  "pad3 n = digit (n div 100 mod 10) # pad2 n"

definition pad4 :: "int \<Rightarrow> string" where
  "pad4 n = digit (n div 1000 mod 10) # pad3 n"

definition pad6 :: "int \<Rightarrow> string" where
  "pad6 n = [digit (n div 100000 mod 10), digit (n div 10000 mod 10)] @ pad4 n"

definition year_text :: "int \<Rightarrow> string" where
  "year_text y =
     (if 0 \<le> y \<and> y \<le> 9999 then pad4 y
      else (if y < 0 then ''-'' else ''+'') @ pad6 \<bar>y\<bar>)"

definition toISOString :: "int \<Rightarrow> string" where
  "toISOString t =
     year_text (YearFromTime t) @ ''-'' @ pad2 (MonthFromTime t + 1) @ ''-'' @
     pad2 (DateFromTime t) @ ''T'' @ pad2 (t div 3600000 mod 24) @ '':'' @
     pad2 (t div 60000 mod 60) @ '':'' @ pad2 (t div 1000 mod 60) @ ''.'' @
     pad3 (t mod 1000) @ ''Z''"

section \<open>The aggregation view (admin/page.tsx)\<close>

record AnalyticsRow =
  created_at :: string
  event_type :: string
  session_id :: string
  row_payload :: "payload option"
  user_agent :: "string option"
  referrer :: "string option"

text \<open>
  The two queries of the page. \<open>ts_text\<close> is how the store prints a
  \<^verbatim>\<open>timestamptz\<close> in its answers. Rows of equal \<^verbatim>\<open>created_at\<close> come in the order the
  sort leaves them in.
\<close>

definition to_row :: "(int \<Rightarrow> string) \<Rightarrow> analytics_event \<Rightarrow> AnalyticsRow" where
  "to_row ts_text e =
     \<lparr>created_at = ts_text (col_created_at e),
      event_type = col_event_type e,
      session_id = col_session_id e,
      row_payload = Some (col_payload e),
      user_agent = col_user_agent e,
      referrer = col_referrer e\<rparr>"

definition select_recent :: "(int \<Rightarrow> string) \<Rightarrow> supabase \<Rightarrow> string + AnalyticsRow list" where
  "select_recent ts_text sb =
     (case fault sb SelectRecent of
        Some msg \<Rightarrow> Inl msg
      | None \<Rightarrow> Inr (map (to_row ts_text) (take 120 (rev (sort_key col_created_at (rows_of sb))))))"

text \<open>
  \<^verbatim>\<open>countByType(eventType, fromIso)\<close>: \<open>since\<close> is the time value whose
  \<^verbatim>\<open>toISOString()\<close> the page sends, which the store reads back as that instant. A
  failed request leaves \<^verbatim>\<open>count\<close> null, and the function returns 0.
\<close>

definition countByType :: "supabase option \<Rightarrow> string \<Rightarrow> int \<Rightarrow> nat" where
  "countByType client kind since =
     (case client of
        None \<Rightarrow> 0
      | Some sb \<Rightarrow>
          (case fault sb (CountRows kind since) of
             Some msg \<Rightarrow> 0
           | None \<Rightarrow>
               length (filter (\<lambda>e. col_event_type e = kind \<and> since * 1000 \<le> col_created_at e)
                         (rows_of sb))))"

definition readDomain :: "url_parser \<Rightarrow> jsvalue option \<Rightarrow> string option" where
  "readDomain new_URL v =
     (case v of
        Some (JString s) \<Rightarrow>
          if length (trim s) = 0 then None
          else (case new_URL s of None \<Rightarrow> None | Some u \<Rightarrow> Some (hostname u))
      | _ \<Rightarrow> None)"

text \<open>\<^verbatim>\<open>row.payload?.destinationUrl\<close>\<close>

definition destinationUrl :: "AnalyticsRow \<Rightarrow> jsvalue option" where
  "destinationUrl row = (case row_payload row of None \<Rightarrow> None | Some p \<Rightarrow> p ''destinationUrl'')"

text \<open>
  A JavaScript \<^verbatim>\<open>Map\<close> is the list of its entries in insertion order: \<^verbatim>\<open>set\<close>
  replaces the value of a key that is present and appends a key that is not;
  \<^verbatim>\<open>get\<close> is \<^const>\<open>map_of\<close>.
\<close>

fun js_map_set :: "('k \<times> 'v) list \<Rightarrow> 'k \<Rightarrow> 'v \<Rightarrow> ('k \<times> 'v) list" where
  "js_map_set [] k v = [(k, v)]"
| "js_map_set ((k', v') # m) k v =
     (if k' = k then (k', v) # m else (k', v') # js_map_set m k v)"

text \<open>The body of the loop that tallies domains, and the loop.\<close>

definition tally_domain :: "url_parser \<Rightarrow> (string \<times> nat) list \<Rightarrow> AnalyticsRow \<Rightarrow> (string \<times> nat) list" where
  "tally_domain new_URL m row =
     (if event_type row \<noteq> ''qr_generated'' then m
      else
        (case readDomain new_URL (destinationUrl row) of
           None \<Rightarrow> m
         | Some domain \<Rightarrow>
             if domain = [] then m
             else
               (let current = (case map_of m domain of None \<Rightarrow> 0 | Some c \<Rightarrow> c)
                in js_map_set m domain (current + 1))))"

definition domainCounts :: "url_parser \<Rightarrow> AnalyticsRow list \<Rightarrow> (string \<times> nat) list" where
  "domainCounts new_URL rows = foldl (tally_domain new_URL) [] rows"

text \<open>
  \<^verbatim>\<open>.sort((a, b) => b[1] - a[1]).slice(0, 5)\<close>: the sort of an array is stable, so
  it is the stable sort on the negated count.
\<close>

definition topDomains :: "url_parser \<Rightarrow> AnalyticsRow list \<Rightarrow> (string \<times> nat) list" where
  "topDomains new_URL rows =
     take 5 (sort_key (\<lambda>entry. - int (snd entry)) (domainCounts new_URL rows))"

text \<open>
  For the statement about the tally, in the words of the specification: the hostname a
  row contributes (a row of the kind \<^verbatim>\<open>qr_generated\<close> whose payload has a destination
  URL, a string that is not blank, which parses and has a hostname), the hostnames of
  a page in the order of its rows, the elements of a list in the order in which they
  are first met, and the tally that belongs to a list of hostnames.
\<close>

definition domain_hit :: "url_parser \<Rightarrow> AnalyticsRow \<Rightarrow> string option" where
  "domain_hit new_URL row =
     (if event_type row = ''qr_generated''
      then (case row_payload row of
              None \<Rightarrow> None
            | Some p \<Rightarrow>
                (case p ''destinationUrl'' of
                   Some (JString s) \<Rightarrow>
                     if trim s = [] then None
                     else (case new_URL s of
                             None \<Rightarrow> None
                           | Some u \<Rightarrow> if hostname u = [] then None else Some (hostname u))
                 | _ \<Rightarrow> None))
      else None)"

definition domain_hits :: "url_parser \<Rightarrow> AnalyticsRow list \<Rightarrow> string list" where
  "domain_hits new_URL rows = List.map_filter (domain_hit new_URL) rows"

definition order_seen :: "'a list \<Rightarrow> 'a list" where
  "order_seen xs = rev (remdups (rev xs))"

definition tally_of :: "'a list \<Rightarrow> ('a \<times> nat) list" where
  "tally_of hs = map (\<lambda>d. (d, count_list hs d)) (order_seen hs)"

definition last14Days :: "time_zone \<Rightarrow> int \<Rightarrow> int" where
  "last14Days z now = setDate z now (getDate z now - 13)"

text \<open>The key of the bucket made in round \<open>index\<close> of the first loop.\<close>

definition bucket_day :: "time_zone \<Rightarrow> int \<Rightarrow> nat \<Rightarrow> string" where
  "bucket_day z now index =
     take 10 (toISOString
       (setDate z (last14Days z now) (getDate z (last14Days z now) + int index)))"

definition count_row :: "(string \<times> nat) list \<Rightarrow> AnalyticsRow \<Rightarrow> (string \<times> nat) list" where
  "count_row m row =
     (let day = take 10 (created_at row)
      in case map_of m day of
           None \<Rightarrow> m
         | Some current \<Rightarrow> js_map_set m day (current + 1))"

definition dateBuckets :: "time_zone \<Rightarrow> int \<Rightarrow> AnalyticsRow list \<Rightarrow> (string \<times> nat) list" where
  "dateBuckets z now rows =
     foldl count_row
       (foldl (\<lambda>m index. js_map_set m (bucket_day z now index) 0) [] [0..<14])
       rows"

text \<open>\<^verbatim>\<open>string | string[]\<close>, the value of a search parameter that is present.\<close>

datatype param = Single string | Multiple "string list"

definition providedKey :: "(string \<rightharpoonup> param) \<Rightarrow> string option" where
  "providedKey params =
     (case params ''key'' of
        None \<Rightarrow> None
      | Some (Single s) \<Rightarrow> Some s
      | Some (Multiple ss) \<Rightarrow> (case ss of [] \<Rightarrow> None | s # rest \<Rightarrow> Some s))"

definition isAuthorized :: "string option \<Rightarrow> (string \<rightharpoonup> param) \<Rightarrow> bool" where
  "isAuthorized expectedKey params = (\<not> truthy expectedKey \<or> providedKey params = expectedKey)"

text \<open>What the page renders: one of three messages, or the report.\<close>

record dashboard =
  kpi_totalEvents :: nat
  kpi_uniqueSessions :: nat
  kpi_generated14d :: nat
  kpi_downloaded14d :: nat
  kpi_pageVisits14d :: nat
  chart_trend :: "(string \<times> nat) list"
  chart_maxTrendCount :: nat
  list_topDomains :: "(string \<times> nat) list"
  table_recent :: "(AnalyticsRow \<times> string) list"

datatype page =
    AccessRequired
  | ConfigMissing
  | LoadFailed string
  | Dashboard dashboard

text \<open>
  \<open>expectedKey\<close> is \<^verbatim>\<open>process.env.ADMIN_DASHBOARD_KEY\<close>, \<open>client\<close> what
  \<^verbatim>\<open>getSupabaseAdminClient()\<close> returns, \<open>now\<close> the time value of \<^verbatim>\<open>new Date()\<close>.
\<close>

definition AdminPage ::
  "url_parser \<Rightarrow> time_zone \<Rightarrow> (int \<Rightarrow> string) \<Rightarrow> int \<Rightarrow> string option \<Rightarrow> supabase option \<Rightarrow>
   (string \<rightharpoonup> param) \<Rightarrow> page" where
  "AdminPage new_URL z ts_text now expectedKey client params =
     (if \<not> isAuthorized expectedKey params then AccessRequired
      else
        (case client of
           None \<Rightarrow> ConfigMissing
         | Some sb \<Rightarrow>
             (case select_recent ts_text sb of
                Inl message \<Rightarrow> LoadFailed message
              | Inr rows \<Rightarrow>
                  (let trend = dateBuckets z now rows
                   in Dashboard
                        \<lparr>kpi_totalEvents = length rows,
                         kpi_uniqueSessions = length (remdups (map session_id rows)),
                         kpi_generated14d = countByType client ''qr_generated'' (last14Days z now),
                         kpi_downloaded14d = countByType client ''qr_downloaded'' (last14Days z now),
                         kpi_pageVisits14d = countByType client ''page_visit'' (last14Days z now),
                         chart_trend = trend,
                         chart_maxTrendCount = fold max (map snd trend) 1,
                         list_topDomains = topDomains new_URL rows,
                         table_recent =
                           map (\<lambda>row. (row, (case readDomain new_URL (destinationUrl row) of
                                               None \<Rightarrow> ''-'' | Some d \<Rightarrow> d)))
                               (take 20 rows)\<rparr>))))"


section \<open>Inputs for the worked examples\<close>

text \<open>
  A store that is reachable and holds no row yet, and the submission of the
  specification's example, sent through a proxy chain, with a kind to choose.
\<close>

definition sample_store :: supabase where
  "sample_store = \<lparr>rows_of = [], clock = 1762154096789000, fault = (\<lambda>q. None)\<rparr>"

definition sample_request :: "string \<Rightarrow> request" where
  "sample_request kind =
     \<lparr>json_body = Some \<lparr>eventType = Some kind, sessionId = Some ''abc123'',
                         payload = Some [''destinationUrl'' \<mapsto> JString ''https://example.com'']\<rparr>,
      x_forwarded_for = Some '' 203.0.113.7, 10.0.0.1'',
      user_agent_header = None,
      referer = Some ''https://quickqr-live.vercel.app/''\<rparr>"

text \<open>
  A zone whose offset from UTC never changes; the time zone of a server that runs on
  UTC; and a store that prints an instant as the date and the time of day in UTC, to
  the second.
\<close>

definition fixed_offset :: "time_zone \<Rightarrow> int \<Rightarrow> bool" where
  "fixed_offset z c = (\<forall>u. offset_at z u = c \<and> offset_of_local z u = c)"

definition utc_zone :: time_zone where
  "utc_zone = \<lparr>offset_at = (\<lambda>t. 0), offset_of_local = (\<lambda>t. 0)\<rparr>"

definition sample_ts_text :: "int \<Rightarrow> string" where
  "sample_ts_text us = take 19 (toISOString (us div 1000)) @ ''+00:00''"

text \<open>
  The results of the URL constructor on the texts the examples hand to it, as the URL
  Standard gives them: \<^verbatim>\<open>alert(1)\<close> is not a port and a space cannot stand in a
  host, so the constructor throws on those two. On every other text this parser
  fails, and no example asks.
\<close>

definition URL_examples :: url_parser where
  "URL_examples s =
     (if s = ''https://example.com''
      then Some \<lparr>protocol = ''https:'', hostname = ''example.com'', href = ''https://example.com/''\<rparr>
      else if s = ''https://example.com/''
      then Some \<lparr>protocol = ''https:'', hostname = ''example.com'', href = ''https://example.com/''\<rparr>
      else if s = ''https://example.org/''
      then Some \<lparr>protocol = ''https:'', hostname = ''example.org'', href = ''https://example.org/''\<rparr>
      else if s = ''https://example.net/menu''
      then Some \<lparr>protocol = ''https:'', hostname = ''example.net'', href = ''https://example.net/menu''\<rparr>
      else if s = ''HTTP://Example.com''
      then Some \<lparr>protocol = ''http:'', hostname = ''example.com'', href = ''http://example.com/''\<rparr>
      else if s = ''https://ftp://example.com''
      then Some \<lparr>protocol = ''https:'', hostname = ''ftp'', href = ''https://ftp//example.com''\<rparr>
      else if s = ''https://javascript:alert(1)'' then None
      else if s = ''https://a b'' then None
      else None)"

text \<open>
  The rules of the zone Europe/Berlin that are in force during 2025: one hour ahead of
  UTC until 30 March, 01:00 UTC, two hours until 26 October, 01:00 UTC, one hour after.
  For a local time that the clocks skip the platform takes the offset from before the
  change, for one that they show twice the earlier instant.
\<close>

definition berlin_2025 :: time_zone where
  "berlin_2025 =
     \<lparr>offset_at =
        (\<lambda>u. if u < 1743296400000 then 3600000
             else if u < 1761440400000 then 7200000 else 3600000),
      offset_of_local =
        (\<lambda>l. if l < 1743303600000 then 3600000
             else if l < 1761447600000 then 7200000 else 3600000)\<rparr>"




text \<open>
  A page of rows as the store returns it, newest first: the time, the kind, the
  session and the destination URL of the payload, where it has one.
\<close>

definition page_row :: "string \<Rightarrow> string \<Rightarrow> string \<Rightarrow> string option \<Rightarrow> AnalyticsRow" where
  "page_row stamp kind session link =
     \<lparr>created_at = stamp,
      event_type = kind,
      session_id = session,
      row_payload =
        Some (case link of None \<Rightarrow> Map.empty | Some l \<Rightarrow> [''destinationUrl'' \<mapsto> JString l]),
      user_agent = None,
      referrer = None\<rparr>"

definition sample_page :: "AnalyticsRow list" where
  "sample_page =
     [page_row ''2025-11-03T07:10:02.120000+00:00'' ''qr_downloaded'' ''s1'' (Some ''https://example.com/''),
      page_row ''2025-11-03T07:10:00.000000+00:00'' ''qr_generated'' ''s1'' (Some ''https://example.com/''),
      page_row ''2025-11-03T07:09:41.500000+00:00'' ''page_visit'' ''s1'' None,
      page_row ''2025-11-01T18:00:00.000000+00:00'' ''qr_generated'' ''s2'' (Some ''https://example.org/''),
      page_row ''2025-10-30T12:30:00.000000+00:00'' ''qr_generated'' ''s3'' (Some ''not a link''),
      page_row ''2025-10-30T12:29:00.000000+00:00'' ''qr_generated'' ''s3'' None,
      page_row ''2025-10-21T09:00:00.000000+00:00'' ''qr_generated'' ''s4'' (Some ''https://example.net/menu''),
      page_row ''2025-10-20T23:59:59.999000+00:00'' ''qr_generated'' ''s4'' (Some ''https://example.org/'')]"

text \<open>A QR library that renders every link.\<close>

definition sample_render :: "string \<Rightarrow> (string \<times> string) option" where
  "sample_render u = Some (''data:image/png;base64,...'', ''<svg>...</svg>'')"

text \<open>A stand-in for the digest that keeps its argument readable.\<close>

definition sample_digest :: "string \<Rightarrow> string" where
  "sample_digest ip = ''sha256:'' @ ip"

section \<open>The ingestion endpoint: what a request leads to\<close>

lemma POST_invalid:
  "\<not> truthy (body_eventType (json_body r)) \<or> \<not> truthy (body_sessionId (json_body r))
   \<Longrightarrow> POST h client r = (\<lparr>status = 400, reply = Failure ''Invalid analytics payload.''\<rparr>, client)"
  by (auto simp: POST_def Let_def)

lemma POST_unconfigured:
  "truthy (body_eventType (json_body r)) \<Longrightarrow> truthy (body_sessionId (json_body r))
   \<Longrightarrow> POST h None r = (\<lparr>status = 200, reply = Stored False\<rparr>, None)"
  by (simp add: POST_def Let_def)

lemma POST_insert:
  "truthy (body_eventType (json_body r)) \<Longrightarrow> truthy (body_sessionId (json_body r))
   \<Longrightarrow> POST h (Some sb) r =
     (case insert_event sb
             \<lparr>ins_event_type = the (body_eventType (json_body r)),
              ins_session_id = the (body_sessionId (json_body r)),
              ins_payload = (case payload (the (json_body r)) of None \<Rightarrow> Map.empty | Some p \<Rightarrow> p),
              ins_ip_hash = hashIpAddress h (readIpAddress r),
              ins_user_agent = (case user_agent_header r of None \<Rightarrow> ''unknown'' | Some u \<Rightarrow> u),
              ins_referrer = referer r\<rparr> of
        Inl err \<Rightarrow> (\<lparr>status = 500, reply = Failure ''Failed to store analytics.''\<rparr>, Some sb)
      | Inr sb' \<Rightarrow> (\<lparr>status = 200, reply = Stored True\<rparr>, Some sb'))"
  by (simp add: POST_def Let_def)

lemma truthy_Some: "truthy (Some s) = (s \<noteq> [])"
  by (simp add: truthy_def)

lemma truthy_None: "truthy None = False"
  by (simp add: truthy_def)

lemma sample_request_fields:
  "body_eventType (json_body (sample_request kind)) = Some kind"
  "body_sessionId (json_body (sample_request kind)) = Some ''abc123''"
  "readIpAddress (sample_request kind) = ''203.0.113.7''"
  by (simp_all add: sample_request_def body_eventType_def body_sessionId_def readIpAddress_def
      trim_def is_white_space_def)

text \<open>
  C10. A body that does not parse as JSON reaches the handler as \<^verbatim>\<open>null\<close>: the answer
  is the 400 of a submission without its required fields, to the letter, and the store
  is left as it was.
\<close>

theorem post_unparseable_body:
  "json_body r = None \<Longrightarrow>
     POST h client r = (\<lparr>status = 400, reply = Failure ''Invalid analytics payload.''\<rparr>, client)
     \<and> POST h client r =
         POST h client (r\<lparr>json_body := Some \<lparr>eventType = None, sessionId = None, payload = p\<rparr>\<rparr>)"
  by (simp add: POST_def Let_def body_eventType_def body_sessionId_def truthy_def)

theorem post_unparseable_body_witness:
  "POST sample_digest (Some sample_store) ((sample_request ''page_visit'')\<lparr>json_body := None\<rparr>)
   = (\<lparr>status = 400, reply = Failure ''Invalid analytics payload.''\<rparr>, Some sample_store)"
  using post_unparseable_body
    [of "(sample_request ''page_visit'')\<lparr>json_body := None\<rparr>" sample_digest "Some sample_store"]
  by simp

text \<open>
  C9. While the backend is not configured, a submission that carries a kind and a
  session key is answered with success and the indicator ``not stored''; there is no
  store, and nothing is written.
\<close>

theorem post_without_backend:
  "json_body r = Some b \<Longrightarrow> eventType b = Some e \<Longrightarrow> sessionId b = Some s \<Longrightarrow> e \<noteq> [] \<Longrightarrow> s \<noteq> []
   \<Longrightarrow> POST h None r = (\<lparr>status = 200, reply = Stored False\<rparr>, None)
      \<and> stored_rows (snd (POST h None r)) = []"
  by (simp add: POST_def Let_def body_eventType_def body_sessionId_def truthy_def stored_rows_def)

theorem post_without_backend_witness:
  "POST sample_digest None (sample_request ''qr_generated'') =
     (\<lparr>status = 200, reply = Stored False\<rparr>, None)"
  using post_without_backend
    [of "sample_request ''qr_generated''"
        "\<lparr>eventType = Some ''qr_generated'', sessionId = Some ''abc123'',
          payload = Some [''destinationUrl'' \<mapsto> JString ''https://example.com'']\<rparr>"
        "''qr_generated''" "''abc123''" sample_digest]
  by (simp add: sample_request_def)

text \<open>
  C1, as the code has it. A submission whose kind or session key is absent or empty is
  answered with 400 and the store is left as it was. With a store, a submission that
  carries both is written as exactly one new row, the last of the table, with the kind,
  the session key and the payload as sent (the empty map for no payload) and the
  digest of the caller's address, and is answered with success and the indicator
  ``stored'', provided that the kind is one the table admits and the store serves the
  insert of that row. With a store, a submission that carries both whose kind the
  table does not admit, or whose insert the store does not serve, is answered with
  500, and the store is left as it was.
\<close>

theorem post_ingestion:
  "(\<not> truthy (body_eventType (json_body r)) \<or> \<not> truthy (body_sessionId (json_body r)) \<longrightarrow>
      POST h client r = (\<lparr>status = 400, reply = Failure ''Invalid analytics payload.''\<rparr>, client))
   \<and> (json_body r = Some b \<and> eventType b = Some e \<and> sessionId b = Some s \<and> e \<noteq> [] \<and> s \<noteq> []
        \<and> event_type_check e
        \<and> fault sb (InsertRow
             \<lparr>ins_event_type = e,
              ins_session_id = s,
              ins_payload = (case payload b of None \<Rightarrow> Map.empty | Some p \<Rightarrow> p),
              ins_ip_hash = hashIpAddress h (readIpAddress r),
              ins_user_agent = (case user_agent_header r of None \<Rightarrow> ''unknown'' | Some u \<Rightarrow> u),
              ins_referrer = referer r\<rparr>) = None \<longrightarrow>
      POST h (Some sb) r =
        (\<lparr>status = 200, reply = Stored True\<rparr>,
         Some (sb\<lparr>rows_of := rows_of sb @
            [\<lparr>col_created_at = clock sb,
              col_event_type = e,
              col_session_id = s,
              col_payload = (case payload b of None \<Rightarrow> Map.empty | Some p \<Rightarrow> p),
              col_ip_hash = hashIpAddress h (readIpAddress r),
              col_user_agent = Some (case user_agent_header r of None \<Rightarrow> ''unknown'' | Some u \<Rightarrow> u),
              col_referrer = referer r\<rparr>]\<rparr>)))
   \<and> (json_body r = Some b \<and> eventType b = Some e \<and> sessionId b = Some s \<and> e \<noteq> [] \<and> s \<noteq> []
        \<and> (\<not> event_type_check e
            \<or> fault sb (InsertRow
                 \<lparr>ins_event_type = e,
                  ins_session_id = s,
                  ins_payload = (case payload b of None \<Rightarrow> Map.empty | Some p \<Rightarrow> p),
                  ins_ip_hash = hashIpAddress h (readIpAddress r),
                  ins_user_agent = (case user_agent_header r of None \<Rightarrow> ''unknown'' | Some u \<Rightarrow> u),
                  ins_referrer = referer r\<rparr>) \<noteq> None) \<longrightarrow>
      POST h (Some sb) r = (\<lparr>status = 500, reply = Failure ''Failed to store analytics.''\<rparr>, Some sb))"
proof (intro conjI impI)
  assume "\<not> truthy (body_eventType (json_body r)) \<or> \<not> truthy (body_sessionId (json_body r))"
  then show "POST h client r = (\<lparr>status = 400, reply = Failure ''Invalid analytics payload.''\<rparr>, client)"
    by (rule POST_invalid)
next
  assume a: "json_body r = Some b \<and> eventType b = Some e \<and> sessionId b = Some s \<and> e \<noteq> [] \<and> s \<noteq> []
        \<and> event_type_check e
        \<and> fault sb (InsertRow
             \<lparr>ins_event_type = e,
              ins_session_id = s,
              ins_payload = (case payload b of None \<Rightarrow> Map.empty | Some p \<Rightarrow> p),
              ins_ip_hash = hashIpAddress h (readIpAddress r),
              ins_user_agent = (case user_agent_header r of None \<Rightarrow> ''unknown'' | Some u \<Rightarrow> u),
              ins_referrer = referer r\<rparr>) = None"
  then have t: "truthy (body_eventType (json_body r))" "truthy (body_sessionId (json_body r))"
    by (simp_all add: truthy_def body_eventType_def body_sessionId_def)
  show "POST h (Some sb) r =
        (\<lparr>status = 200, reply = Stored True\<rparr>,
         Some (sb\<lparr>rows_of := rows_of sb @
            [\<lparr>col_created_at = clock sb,
              col_event_type = e,
              col_session_id = s,
              col_payload = (case payload b of None \<Rightarrow> Map.empty | Some p \<Rightarrow> p),
              col_ip_hash = hashIpAddress h (readIpAddress r),
              col_user_agent = Some (case user_agent_header r of None \<Rightarrow> ''unknown'' | Some u \<Rightarrow> u),
              col_referrer = referer r\<rparr>]\<rparr>))"
    using a by (simp add: POST_insert [OF t] insert_event_def body_eventType_def body_sessionId_def)
next
  assume a: "json_body r = Some b \<and> eventType b = Some e \<and> sessionId b = Some s \<and> e \<noteq> [] \<and> s \<noteq> []
        \<and> (\<not> event_type_check e
            \<or> fault sb (InsertRow
                 \<lparr>ins_event_type = e,
                  ins_session_id = s,
                  ins_payload = (case payload b of None \<Rightarrow> Map.empty | Some p \<Rightarrow> p),
                  ins_ip_hash = hashIpAddress h (readIpAddress r),
                  ins_user_agent = (case user_agent_header r of None \<Rightarrow> ''unknown'' | Some u \<Rightarrow> u),
                  ins_referrer = referer r\<rparr>) \<noteq> None)"
  then have t: "truthy (body_eventType (json_body r))" "truthy (body_sessionId (json_body r))"
    by (simp_all add: truthy_def body_eventType_def body_sessionId_def)
  show "POST h (Some sb) r = (\<lparr>status = 500, reply = Failure ''Failed to store analytics.''\<rparr>, Some sb)"
    using a by (auto simp: POST_insert [OF t] insert_event_def body_eventType_def body_sessionId_def
        split: option.splits)
qed

theorem post_ingestion_witness:
  "POST sample_digest (Some sample_store) (sample_request ''qr_generated'') =
     (\<lparr>status = 200, reply = Stored True\<rparr>,
      Some (sample_store\<lparr>rows_of :=
        [\<lparr>col_created_at = 1762154096789000,
          col_event_type = ''qr_generated'',
          col_session_id = ''abc123'',
          col_payload = [''destinationUrl'' \<mapsto> JString ''https://example.com''],
          col_ip_hash = ''sha256:203.0.113.7'',
          col_user_agent = Some ''unknown'',
          col_referrer = Some ''https://quickqr-live.vercel.app/''\<rparr>]\<rparr>))"
proof -
  have "json_body (sample_request ''qr_generated'') =
          Some \<lparr>eventType = Some ''qr_generated'', sessionId = Some ''abc123'',
                payload = Some [''destinationUrl'' \<mapsto> JString ''https://example.com'']\<rparr>"
    by (simp add: sample_request_def)
  moreover have "event_type_check ''qr_generated''"
    by (simp add: event_type_check_def)
  moreover have "fault sample_store q = None" for q
    by (simp add: sample_store_def)
  ultimately show ?thesis
    using post_ingestion
      [of "sample_request ''qr_generated''" sample_digest "Some sample_store"
          "\<lparr>eventType = Some ''qr_generated'', sessionId = Some ''abc123'',
            payload = Some [''destinationUrl'' \<mapsto> JString ''https://example.com'']\<rparr>"
          "''qr_generated''" "''abc123''" sample_store]
    by (simp add: sample_request_fields hashIpAddress_def sample_digest_def)
       (simp add: sample_request_def sample_store_def)
qed

text \<open>
  The claim C1 as it is worded fails where the kind is a string the table does not
  admit: both fields are there and the backend is configured, and no row is written.
\<close>

theorem post_unknown_kind_counterexample:
  "POST sample_digest (Some sample_store) (sample_request ''foo'') =
     (\<lparr>status = 500, reply = Failure ''Failed to store analytics.''\<rparr>, Some sample_store)"
  by (simp add: POST_def Let_def sample_request_def body_eventType_def body_sessionId_def truthy_def
      insert_event_def sample_store_def event_type_check_def)

lemma insert_event_Inr:
  "insert_event sb v = Inr sb' \<Longrightarrow>
     event_type_check (ins_event_type v)
     \<and> (\<forall>x \<in> set (rows_of sb'). x \<in> set (rows_of sb) \<or> col_event_type x = ins_event_type v)"
  by (auto simp: insert_event_def split: option.splits if_splits)

lemma POST_cases:
  "POST h client r = (\<lparr>status = 400, reply = Failure ''Invalid analytics payload.''\<rparr>, client)
     \<and> \<not> (truthy (body_eventType (json_body r)) \<and> truthy (body_sessionId (json_body r)))
   \<or> POST h client r = (\<lparr>status = 200, reply = Stored False\<rparr>, None) \<and> client = None
     \<and> truthy (body_eventType (json_body r)) \<and> truthy (body_sessionId (json_body r))
   \<or> POST h client r = (\<lparr>status = 500, reply = Failure ''Failed to store analytics.''\<rparr>, client) \<and> client \<noteq> None
     \<and> truthy (body_eventType (json_body r)) \<and> truthy (body_sessionId (json_body r))
   \<or> (\<exists>sb sb' e. client = Some sb \<and> body_eventType (json_body r) = Some e \<and> event_type_check e
        \<and> (\<forall>x \<in> set (rows_of sb'). x \<in> set (rows_of sb) \<or> col_event_type x = e)
        \<and> POST h client r = (\<lparr>status = 200, reply = Stored True\<rparr>, Some sb'))"
proof (cases "truthy (body_eventType (json_body r)) \<and> truthy (body_sessionId (json_body r))")
  case False
  then show ?thesis using POST_invalid [of r h client] by blast
next
  case True
  then have t: "truthy (body_eventType (json_body r))" "truthy (body_sessionId (json_body r))" by simp_all
  show ?thesis
  proof (cases client)
    case None
    then show ?thesis using POST_unconfigured [OF t, of h] t by simp
  next
    case (Some sb)
    obtain e where e: "body_eventType (json_body r) = Some e"
      using t(1) by (auto simp: truthy_def split: option.splits)
    define v where "v = \<lparr>ins_event_type = the (body_eventType (json_body r)),
              ins_session_id = the (body_sessionId (json_body r)),
              ins_payload = (case payload (the (json_body r)) of None \<Rightarrow> Map.empty | Some p \<Rightarrow> p),
              ins_ip_hash = hashIpAddress h (readIpAddress r),
              ins_user_agent = (case user_agent_header r of None \<Rightarrow> ''unknown'' | Some u \<Rightarrow> u),
              ins_referrer = referer r\<rparr>"
    have v: "ins_event_type v = e" by (simp add: v_def e)
    show ?thesis
    proof (cases "insert_event sb v")
      case (Inl err)
      then show ?thesis using Some t by (simp add: POST_insert [OF t] v_def)
    next
      case (Inr sb')
      from insert_event_Inr [OF Inr] v
      have "event_type_check e" "\<forall>x \<in> set (rows_of sb'). x \<in> set (rows_of sb) \<or> col_event_type x = e"
        by simp_all
      moreover have "POST h client r = (\<lparr>status = 200, reply = Stored True\<rparr>, Some sb')"
        using Some Inr by (simp add: POST_insert [OF t] v_def)
      ultimately show ?thesis using Some e by blast
    qed
  qed
qed

text \<open>
  C4, as the code has it. The handler itself does not compare the kind with the
  enumeration: the table's check constraint does. A submission whose kind is absent or
  outside the enumeration is never stored and never answered as stored. It is answered
  with 400 where its kind or its session key is absent or empty; where both are there
  it is answered with 500 if the backend is configured, and with success and the
  indicator ``not stored'' if it is not. And no request adds a row of another kind: if
  every row of the table has a kind of the enumeration before a request, so has every
  row after it.
\<close>

theorem kind_enumeration:
  "((\<forall>e. body_eventType (json_body r) = Some e \<longrightarrow> \<not> event_type_check e) \<longrightarrow>
       snd (POST h client r) = client
       \<and> reply (fst (POST h client r)) \<noteq> Stored True
       \<and> (\<not> truthy (body_eventType (json_body r)) \<or> \<not> truthy (body_sessionId (json_body r)) \<longrightarrow>
            fst (POST h client r) = \<lparr>status = 400, reply = Failure ''Invalid analytics payload.''\<rparr>)
       \<and> (truthy (body_eventType (json_body r)) \<and> truthy (body_sessionId (json_body r))
            \<and> client \<noteq> None \<longrightarrow>
            fst (POST h client r) = \<lparr>status = 500, reply = Failure ''Failed to store analytics.''\<rparr>)
       \<and> (truthy (body_eventType (json_body r)) \<and> truthy (body_sessionId (json_body r))
            \<and> client = None \<longrightarrow>
            fst (POST h client r) = \<lparr>status = 200, reply = Stored False\<rparr>))
   \<and> ((\<forall>x \<in> set (stored_rows client). event_type_check (col_event_type x)) \<longrightarrow>
       (\<forall>x \<in> set (stored_rows (snd (POST h client r))). event_type_check (col_event_type x)))"
  using POST_cases [of h client r]
  by (elim disjE exE conjE) (fastforce simp: stored_rows_def)+

theorem kind_enumeration_witness:
  "POST sample_digest (Some sample_store) (sample_request ''qr_scanned'')
     = (\<lparr>status = 500, reply = Failure ''Failed to store analytics.''\<rparr>, Some sample_store)
   \<and> POST sample_digest (Some sample_store) ((sample_request ''qr_scanned'')\<lparr>json_body :=
        Some \<lparr>eventType = Some ''qr_scanned'', sessionId = None, payload = None\<rparr>\<rparr>)
     = (\<lparr>status = 400, reply = Failure ''Invalid analytics payload.''\<rparr>, Some sample_store)
   \<and> POST sample_digest None (sample_request ''qr_scanned'')
     = (\<lparr>status = 200, reply = Stored False\<rparr>, None)
   \<and> list_all (\<lambda>x. event_type_check (col_event_type x))
        (stored_rows (snd (POST sample_digest (Some sample_store) (sample_request ''qr_generated''))))"
proof -
  let ?r = "sample_request ''qr_scanned''"
  let ?r' = "(sample_request ''qr_scanned'')\<lparr>json_body :=
        Some \<lparr>eventType = Some ''qr_scanned'', sessionId = None, payload = None\<rparr>\<rparr>"
  have a: "\<forall>e. body_eventType (json_body ?r) = Some e \<longrightarrow> \<not> event_type_check e"
    by (simp add: sample_request_fields event_type_check_def)
  have a': "\<forall>e. body_eventType (json_body ?r') = Some e \<longrightarrow> \<not> event_type_check e"
    by (simp add: body_eventType_def event_type_check_def)
  have t: "truthy (body_eventType (json_body ?r))" "truthy (body_sessionId (json_body ?r))"
    by (simp_all add: sample_request_fields truthy_def)
  have t': "\<not> truthy (body_sessionId (json_body ?r'))"
    by (simp add: body_sessionId_def truthy_def)
  have b: "\<forall>x \<in> set (stored_rows (Some sample_store)). event_type_check (col_event_type x)"
    by (simp add: stored_rows_def sample_store_def)
  from kind_enumeration [of ?r sample_digest "Some sample_store"] a t
  have 1: "snd (POST sample_digest (Some sample_store) ?r) = Some sample_store
    \<and> fst (POST sample_digest (Some sample_store) ?r)
        = \<lparr>status = 500, reply = Failure ''Failed to store analytics.''\<rparr>"
    by blast
  from kind_enumeration [of ?r' sample_digest "Some sample_store"] a' t'
  have 2: "snd (POST sample_digest (Some sample_store) ?r') = Some sample_store
    \<and> fst (POST sample_digest (Some sample_store) ?r')
        = \<lparr>status = 400, reply = Failure ''Invalid analytics payload.''\<rparr>"
    by blast
  from kind_enumeration [of ?r sample_digest None] a t
  have 3: "snd (POST sample_digest None ?r) = None
    \<and> fst (POST sample_digest None ?r) = \<lparr>status = 200, reply = Stored False\<rparr>"
    by blast
  from kind_enumeration [of "sample_request ''qr_generated''" sample_digest "Some sample_store"] b
  have 4: "\<forall>x \<in> set (stored_rows (snd (POST sample_digest (Some sample_store) (sample_request ''qr_generated'')))). event_type_check (col_event_type x)"
    by blast
  show ?thesis using 1 2 3 4 by (simp add: list_all_iff prod_eq_iff)
qed

text \<open>
  The claim C4 as it is worded fails while no backend is configured: a submission of an
  unknown kind is answered with success then, like any other.
\<close>

theorem unknown_kind_without_backend_counterexample:
  "POST sample_digest None (sample_request ''foo'') = (\<lparr>status = 200, reply = Stored False\<rparr>, None)"
  by (simp add: POST_def Let_def sample_request_fields truthy_def)

section \<open>The aggregation view: access\<close>

text \<open>
  C5. With a secret configured (a non-empty \<^verbatim>\<open>ADMIN_DASHBOARD_KEY\<close>), a request whose
  \<^verbatim>\<open>key\<close> parameter is not the secret gets the fixed access message, which holds
  nothing of the store; no other parameter is read. With no secret configured the
  page never answers with that message.
\<close>

theorem dashboard_gate:
  "(truthy expectedKey \<and> providedKey params \<noteq> expectedKey \<longrightarrow>
      AdminPage new_URL z ts_text now expectedKey client params = AccessRequired)
   \<and> (\<not> truthy expectedKey \<longrightarrow>
      AdminPage new_URL z ts_text now expectedKey client params \<noteq> AccessRequired)
   \<and> (params ''key'' = params' ''key'' \<longrightarrow>
      AdminPage new_URL z ts_text now expectedKey client params =
      AdminPage new_URL z ts_text now expectedKey client params')"
  by (auto simp: AdminPage_def isAuthorized_def providedKey_def Let_def split: option.splits sum.splits)

theorem dashboard_gate_witness:
  "AdminPage URL_examples utc_zone sample_ts_text 1762154096789 (Some ''s3cret'') (Some sample_store)
     [''key'' \<mapsto> Multiple [''guess'', ''s3cret''], ''limit'' \<mapsto> Single ''500''] = AccessRequired
   \<and> AdminPage URL_examples utc_zone sample_ts_text 1762154096789 None (Some sample_store)
     [''limit'' \<mapsto> Single ''500''] \<noteq> AccessRequired"
proof -
  have a: "truthy (Some ''s3cret'') \<and>
      providedKey [''key'' \<mapsto> Multiple [''guess'', ''s3cret''], ''limit'' \<mapsto> Single ''500'']
        \<noteq> Some ''s3cret''"
    by (simp add: truthy_def providedKey_def)
  have b: "\<not> truthy None"
    by (simp add: truthy_def)
  from a dashboard_gate
    [of "Some ''s3cret''" "[''key'' \<mapsto> Multiple [''guess'', ''s3cret''], ''limit'' \<mapsto> Single ''500'']"
        URL_examples utc_zone sample_ts_text 1762154096789 "Some sample_store"]
  have 1: "AdminPage URL_examples utc_zone sample_ts_text 1762154096789 (Some ''s3cret'')
      (Some sample_store)
      [''key'' \<mapsto> Multiple [''guess'', ''s3cret''], ''limit'' \<mapsto> Single ''500''] = AccessRequired"
    by blast
  from b dashboard_gate
    [of None "[''limit'' \<mapsto> Single ''500'']"
        URL_examples utc_zone sample_ts_text 1762154096789 "Some sample_store"]
  have 2: "AdminPage URL_examples utc_zone sample_ts_text 1762154096789 None (Some sample_store)
      [''limit'' \<mapsto> Single ''500''] \<noteq> AccessRequired"
    by blast
  from 1 2 show ?thesis by (rule conjI)
qed

section \<open>The link normalizer\<close>

lemma trim_samples:
  "trim ''example.com'' = ''example.com''"
  "trim ''javascript:alert(1)'' = ''javascript:alert(1)''"
  "trim ''a b'' = ''a b''"
  "trim ''ftp://example.com'' = ''ftp://example.com''"
  "trim '' example.com  '' = ''example.com''"
  by (simp_all add: trim_def is_white_space_def)

lemma withProtocol_samples:
  "withProtocol ''example.com'' = ''https://example.com''"
  "withProtocol ''javascript:alert(1)'' = ''https://javascript:alert(1)''"
  "withProtocol ''a b'' = ''https://a b''"
  "withProtocol ''ftp://example.com'' = ''https://ftp://example.com''"
  by (simp_all add: withProtocol_def has_http_prefix_def ascii_lower_def)

lemma withProtocol_upper: "withProtocol ''HTTP://Example.com'' = ''HTTP://Example.com''"
  by (simp add: withProtocol_def has_http_prefix_def ascii_lower_def)

lemma normalize_upper: "normalizeUrl URL_examples '' HTTP://Example.com'' = Some ''http://example.com/''"
  by (simp add: normalizeUrl_def trim_def is_white_space_def withProtocol_upper URL_examples_def VALID_PROTOCOLS_def)

lemma normalize_prefixed:
  "trim raw \<noteq> [] \<Longrightarrow> \<not> has_http_prefix (trim raw) \<Longrightarrow>
   normalizeUrl new_URL raw =
     (case new_URL (''https://'' @ trim raw) of
        None \<Rightarrow> None
      | Some parsed \<Rightarrow> if protocol parsed \<in> VALID_PROTOCOLS then Some (href parsed) else None)"
  by (simp add: normalizeUrl_def withProtocol_def split: option.splits)

lemma normalize_examples:
  "normalizeUrl URL_examples ''example.com'' = Some ''https://example.com/''"
  "normalizeUrl URL_examples ''javascript:alert(1)'' = None"
  "normalizeUrl URL_examples ''   '' = None"
  "normalizeUrl URL_examples ''a b'' = None"
  by (simp_all add: normalizeUrl_def trim_samples withProtocol_samples URL_examples_def
      VALID_PROTOCOLS_def trim_def is_white_space_def)

text \<open>
  C2. An input with a scheme other than HTTP or HTTPS is not refused for its scheme.
  The normalizer puts \<^verbatim>\<open>https://\<close> before every text that does not begin with
  \<^verbatim>\<open>http://\<close> or \<^verbatim>\<open>https://\<close>, whatever the text begins with, and compares the
  protocol with \<^verbatim>\<open>VALID_PROTOCOLS\<close> after the parse only, when the protocol is that
  of the prefix. So \<^verbatim>\<open>ftp://example.com\<close> comes back as a link to the host
  \<^verbatim>\<open>ftp\<close>, where the claim has an absent result.
\<close>

theorem normalize_other_scheme_accepted:
  "normalizeUrl URL_examples ''ftp://example.com'' = Some ''https://ftp//example.com''"
  by (simp add: normalizeUrl_def trim_samples withProtocol_samples URL_examples_def VALID_PROTOCOLS_def)

section \<open>The event emitter\<close>

lemma trackEvent_never_throws: "trackEvent f kind session data \<noteq> Throws"
  by (simp add: trackEvent_def split: fetch_outcome.splits)

lemma onMount_not_awaited:
  "list_all (\<lambda>a. \<not> awaits_emitter a) (onMount storedTheme prefersDark existing uuid)"
  by (auto simp: onMount_def Let_def list_all_iff split: option.splits if_splits)

lemma onGenerate_success:
  "normalizeUrl new_URL rawLink = Some n \<Longrightarrow> n \<noteq> [] \<Longrightarrow> render n = Some (png, svg) \<Longrightarrow>
   onGenerate new_URL render rawLink purpose session =
     [PreventDefault, SetErrorMessage [], SetIsBusy True, AwaitRender n] @
     [SetQrPng png, SetQrSvg svg, SetFinalUrl n] @
     ((if session \<noteq> [] then [AwaitTrack ''qr_generated'' session (generated_payload n purpose)] else [])
      @ [SetIsBusy False])"
  by (simp add: onGenerate_def)

text \<open>
  C3. The handler of the form awaits the emitter, where the effect on mount starts it
  with \<^verbatim>\<open>void\<close>. While \<^verbatim>\<open>fetch\<close> stays pending, a run of the handler for the link
  \<^verbatim>\<open>example.com\<close> stands at that call: the outputs are stored, and the busy flag, set at
  the start, is not cleared, which keeps the submit button disabled. With a backend
  that answers, the same run goes on and clears the flag.
\<close>

theorem generate_awaits_emitter:
  "performed (\<lambda>b. Pending) (onGenerate URL_examples sample_render ''example.com'' [] ''abc123'') =
     [PreventDefault, SetErrorMessage [], SetIsBusy True, AwaitRender ''https://example.com/'',
      SetQrPng ''data:image/png;base64,...'', SetQrSvg ''<svg>...</svg>'',
      SetFinalUrl ''https://example.com/'',
      AwaitTrack ''qr_generated'' ''abc123'' (generated_payload ''https://example.com/'' [])]
   \<and> performed (\<lambda>b. Fulfilled 200) (onGenerate URL_examples sample_render ''example.com'' [] ''abc123'') =
     [PreventDefault, SetErrorMessage [], SetIsBusy True, AwaitRender ''https://example.com/'',
      SetQrPng ''data:image/png;base64,...'', SetQrSvg ''<svg>...</svg>'',
      SetFinalUrl ''https://example.com/'',
      AwaitTrack ''qr_generated'' ''abc123'' (generated_payload ''https://example.com/'' []),
      SetIsBusy False]"
  by (simp add: onGenerate_def normalizeUrl_def trim_samples withProtocol_samples URL_examples_def
      VALID_PROTOCOLS_def sample_render_def trackEvent_def)

section \<open>The aggregation view: the domain tally\<close>

lemma order_seen_snoc:
  "order_seen (xs @ [x]) = (if x \<in> set xs then order_seen xs else order_seen xs @ [x])"
  by (simp add: order_seen_def)

lemma set_order_seen [simp]: "set (order_seen xs) = set xs"
  by (simp add: order_seen_def)

lemma distinct_order_seen [simp]: "distinct (order_seen xs)"
  by (simp add: order_seen_def)

lemma map_of_keyed:
  "map_of (map (\<lambda>k. (k, f k)) ks) d = (if d \<in> set ks then Some (f d) else None)"
  by (induction ks) auto

lemma js_map_set_keyed:
  "distinct ks \<Longrightarrow>
   js_map_set (map (\<lambda>k. (k, f k)) ks) d v =
     (if d \<in> set ks then map (\<lambda>k. (k, if k = d then v else f k)) ks
      else map (\<lambda>k. (k, f k)) ks @ [(d, v)])"
  by (induction ks) auto

lemma count_list_snoc:
  "count_list (xs @ [x]) y = count_list xs y + (if x = y then 1 else 0)"
  by (induction xs) auto

lemma tally_of_snoc:
  "js_map_set (tally_of hs) d ((case map_of (tally_of hs) d of None \<Rightarrow> 0 | Some c \<Rightarrow> c) + 1)
     = tally_of (hs @ [d])"
proof (cases "d \<in> set hs")
  case True
  then show ?thesis
    by (auto simp: tally_of_def js_map_set_keyed map_of_keyed order_seen_snoc count_list_snoc)
next
  case False
  then show ?thesis
    by (auto simp: tally_of_def js_map_set_keyed map_of_keyed order_seen_snoc count_list_snoc)
qed

lemma domain_hit_readDomain:
  "domain_hit new_URL row =
     (if event_type row = ''qr_generated''
      then (case readDomain new_URL (destinationUrl row) of
              None \<Rightarrow> None
            | Some d \<Rightarrow> if d = [] then None else Some d)
      else None)"
  by (simp add: domain_hit_def readDomain_def destinationUrl_def
      split: option.splits jsvalue.splits)

lemma tally_domain_step:
  "tally_domain new_URL (tally_of hs) row =
     (case domain_hit new_URL row of None \<Rightarrow> tally_of hs | Some d \<Rightarrow> tally_of (hs @ [d]))"
proof (cases "domain_hit new_URL row")
  case None
  then show ?thesis
    by (auto simp: tally_domain_def domain_hit_readDomain Let_def split: option.splits if_splits)
next
  case (Some d)
  then have "tally_domain new_URL (tally_of hs) row =
      js_map_set (tally_of hs) d ((case map_of (tally_of hs) d of None \<Rightarrow> 0 | Some c \<Rightarrow> c) + 1)"
    by (auto simp: tally_domain_def domain_hit_readDomain Let_def split: option.splits if_splits)
  then show ?thesis
    using Some by (simp only: tally_of_snoc option.case)
qed

lemma foldl_tally_domain:
  "foldl (tally_domain new_URL) (tally_of hs) rows = tally_of (hs @ domain_hits new_URL rows)"
proof (induction rows arbitrary: hs)
  case Nil
  then show ?case by (simp add: domain_hits_def List.map_filter_simps)
next
  case (Cons row rows)
  show ?case
  proof (cases "domain_hit new_URL row")
    case None
    then show ?thesis
      using Cons.IH [of hs]
      by (simp add: tally_domain_step domain_hits_def List.map_filter_simps)
  next
    case (Some d)
    then show ?thesis
      using Cons.IH [of "hs @ [d]"]
      by (simp add: tally_domain_step domain_hits_def List.map_filter_simps)
  qed
qed

lemma domainCounts_tally:
  "domainCounts new_URL rows = tally_of (domain_hits new_URL rows)"
  using foldl_tally_domain [of new_URL "[]" rows]
  by (simp add: domainCounts_def tally_of_def order_seen_def)

lemma filter_take_prefix:
  "\<exists>rest. filter P xs = filter P (take n xs) @ rest"
proof -
  have "filter P xs = filter P (take n xs @ drop n xs)" by simp
  also have "\<dots> = filter P (take n xs) @ filter P (drop n xs)" by (simp only: filter_append)
  finally show ?thesis by blast
qed

lemma ranked_sorted:
  "sorted_wrt (\<lambda>a b. snd b \<le> snd a) (sort_key (\<lambda>entry. - int (snd entry)) (xs :: ('a \<times> nat) list))"
proof -
  have "sorted (map (\<lambda>entry. - int (snd entry)) (sort_key (\<lambda>entry. - int (snd entry)) xs))"
    by (rule sorted_sort_key)
  then show ?thesis by (simp add: sorted_map)
qed

lemma ranked_ties:
  "filter (\<lambda>e. snd e = k) (sort_key (\<lambda>entry. - int (snd entry)) (xs :: ('a \<times> nat) list))
     = filter (\<lambda>e. snd e = k) xs"
  using sort_key_stable [of "\<lambda>entry. - int (snd entry)" "- int k" xs] by simp

text \<open>
  C7. The tally of a loaded page counts, by hostname, the rows of the kind
  \<^verbatim>\<open>qr_generated\<close> whose destination URL is there, parses and has a hostname; every
  other row is skipped. At most five entries come back, each a hostname of the page
  with the number of its rows, no hostname twice, in descending order of the counts;
  a hostname that is left out is no more frequent than any that is shown; and among
  the entries of one frequency the hostnames stand in the order in which the page
  first shows them.
\<close>

theorem top_domains:
  "length (topDomains new_URL rows) \<le> 5
   \<and> distinct (map fst (topDomains new_URL rows))
   \<and> (\<forall>e \<in> set (topDomains new_URL rows).
         fst e \<in> set (domain_hits new_URL rows)
         \<and> snd e = count_list (domain_hits new_URL rows) (fst e))
   \<and> sorted_wrt (\<lambda>a b. snd b \<le> snd a) (topDomains new_URL rows)
   \<and> (\<forall>d \<in> set (domain_hits new_URL rows). d \<notin> fst ` set (topDomains new_URL rows) \<longrightarrow>
         length (topDomains new_URL rows) = 5
         \<and> (\<forall>e \<in> set (topDomains new_URL rows). count_list (domain_hits new_URL rows) d \<le> snd e))
   \<and> (\<forall>k. \<exists>rest.
         filter (\<lambda>d. count_list (domain_hits new_URL rows) d = k) (order_seen (domain_hits new_URL rows))
           = map fst (filter (\<lambda>e. snd e = k) (topDomains new_URL rows)) @ rest)"
proof -
  define hits where "hits = domain_hits new_URL rows"
  define ranked where "ranked = sort_key (\<lambda>entry. - int (snd entry)) (tally_of hits)"
  have top: "topDomains new_URL rows = take 5 ranked"
    by (simp add: topDomains_def ranked_def hits_def domainCounts_tally)
  have set_ranked: "set ranked = (\<lambda>d. (d, count_list hits d)) ` set hits"
    by (simp add: ranked_def tally_of_def)
  have sorted_ranked: "sorted_wrt (\<lambda>a b. snd b \<le> snd a) ranked"
    unfolding ranked_def by (rule ranked_sorted)
  have 1: "length (take 5 ranked) \<le> 5" by simp
  have "distinct (map fst (tally_of hits))"
    by (simp add: tally_of_def comp_def)
  then have "distinct (map fst ranked)"
    unfolding ranked_def by (simp add: distinct_map)
  then have 2: "distinct (map fst (take 5 ranked))"
    by (simp add: take_map [symmetric])
  have 3: "\<forall>e \<in> set (take 5 ranked). fst e \<in> set hits \<and> snd e = count_list hits (fst e)"
    using set_ranked by (auto dest!: in_set_takeD)
  have 4: "sorted_wrt (\<lambda>a b. snd b \<le> snd a) (take 5 ranked)"
    using sorted_ranked by (rule sorted_wrt_take)
  have 5: "\<forall>d \<in> set hits. d \<notin> fst ` set (take 5 ranked) \<longrightarrow>
         length (take 5 ranked) = 5 \<and> (\<forall>e \<in> set (take 5 ranked). count_list hits d \<le> snd e)"
  proof (intro ballI impI)
    fix d assume d: "d \<in> set hits" and out: "d \<notin> fst ` set (take 5 ranked)"
    have "(d, count_list hits d) \<in> set ranked" using d set_ranked by blast
    then have "(d, count_list hits d) \<in> set (take 5 ranked) \<union> set (drop 5 ranked)"
      by (simp only: set_append [symmetric] append_take_drop_id)
    moreover have "(d, count_list hits d) \<notin> set (take 5 ranked)"
      using out by force
    ultimately have late: "(d, count_list hits d) \<in> set (drop 5 ranked)" by blast
    then have "drop 5 ranked \<noteq> []" by auto
    then have len: "length (take 5 ranked) = 5" by simp
    have "sorted_wrt (\<lambda>a b. snd b \<le> snd a) (take 5 ranked @ drop 5 ranked)"
      using sorted_ranked by simp
    then have "\<forall>e \<in> set (take 5 ranked). \<forall>y \<in> set (drop 5 ranked). snd y \<le> snd e"
      by (simp only: sorted_wrt_append) blast
    then have "\<forall>e \<in> set (take 5 ranked). count_list hits d \<le> snd e"
      using late by force
    with len show "length (take 5 ranked) = 5 \<and> (\<forall>e \<in> set (take 5 ranked). count_list hits d \<le> snd e)"
      by blast
  qed
  have 6: "\<exists>rest. filter (\<lambda>d. count_list hits d = k) (order_seen hits)
           = map fst (filter (\<lambda>e. snd e = k) (take 5 ranked)) @ rest" for k
  proof -
    have "map fst (filter (\<lambda>e. snd e = k) ranked) = map fst (filter (\<lambda>e. snd e = k) (tally_of hits))"
      unfolding ranked_def by (simp only: ranked_ties)
    also have "\<dots> = filter (\<lambda>d. count_list hits d = k) (order_seen hits)"
      by (simp add: tally_of_def filter_map comp_def)
    finally have eq: "filter (\<lambda>d. count_list hits d = k) (order_seen hits)
        = map fst (filter (\<lambda>e. snd e = k) ranked)" by simp
    obtain rest where "filter (\<lambda>e. snd e = k) ranked = filter (\<lambda>e. snd e = k) (take 5 ranked) @ rest"
      using filter_take_prefix [of "\<lambda>e. snd e = k" ranked 5] by blast
    then show ?thesis using eq by simp
  qed
  from 1 2 3 4 5 6 show ?thesis
    unfolding top hits_def [symmetric] by blast
qed

theorem top_domains_witness:
  "domain_hits URL_examples sample_page
     = [''example.com'', ''example.org'', ''example.net'', ''example.org'']
   \<and> topDomains URL_examples sample_page
     = [(''example.org'', 2), (''example.com'', 1), (''example.net'', 1)]
   \<and> length (topDomains URL_examples sample_page) \<le> 5
   \<and> sorted_wrt (\<lambda>a b. snd b \<le> snd a) (topDomains URL_examples sample_page)"
proof -
  have 1: "domain_hits URL_examples sample_page
      = [''example.com'', ''example.org'', ''example.net'', ''example.org'']"
    by (simp add: domain_hits_def domain_hit_def List.map_filter_simps sample_page_def page_row_def
        readDomain_def destinationUrl_def URL_examples_def trim_def is_white_space_def)
  have 2: "topDomains URL_examples sample_page
      = [(''example.org'', 2), (''example.com'', 1), (''example.net'', 1)]"
    by (simp add: topDomains_def domainCounts_def sample_page_def page_row_def tally_domain_def
        readDomain_def destinationUrl_def URL_examples_def trim_def is_white_space_def)
  from top_domains [of URL_examples sample_page]
  have 3: "length (topDomains URL_examples sample_page) \<le> 5
      \<and> sorted_wrt (\<lambda>a b. snd b \<le> snd a) (topDomains URL_examples sample_page)"
    by blast
  from 1 2 3 show ?thesis by blast
qed

section \<open>Dates: what the platform's operations compute\<close>

lemma div_succ:
  "0 < n \<Longrightarrow> ((a::int) + 1) div n = a div n + (if (a + 1) mod n = 0 then 1 else 0)"
proof -
  assume n: "0 < n"
  define q r where "q = a div n" and "r = a mod n"
  have a: "a = n * q + r" "0 \<le> r" "r < n"
    using n by (simp_all add: q_def r_def)
  show ?thesis
  proof (cases "r = n - 1")
    case True
    then have e: "a + 1 = n * (q + 1) + 0" using a by (simp add: algebra_simps)
    have "(a + 1) div n = q + 1" using e n by (intro int_div_pos_eq [of _ _ _ 0]) simp_all
    moreover have "(a + 1) mod n = 0" using e n by (intro int_mod_pos_eq [of _ _ "q + 1"]) simp_all
    ultimately show ?thesis by (simp add: q_def)
  next
    case False
    then have r: "0 \<le> r + 1" "r + 1 < n" using a by simp_all
    have e: "a + 1 = n * q + (r + 1)" using a by simp
    have "(a + 1) div n = q" using e r by (rule int_div_pos_eq)
    moreover have "(a + 1) mod n = r + 1" using e r by (rule int_mod_pos_eq)
    moreover have "r + 1 \<noteq> 0" using a(2) by simp
    ultimately show ?thesis by (simp add: q_def)
  qed
qed

lemma mod_shift: "n dvd c \<Longrightarrow> ((y::int) - c) mod n = 0 \<longleftrightarrow> y mod n = 0"
  by (simp add: mod_eq_0_iff_dvd dvd_diff_left_iff)

lemma DayFromYear_step: "DayFromYear (y + 1) = DayFromYear y + DaysInYear y"
proof -
  have 4: "(y + 1 - 1969) div 4 = (y - 1969) div 4 + (if y mod 4 = 0 then 1 else 0)"
    using div_succ [of 4 "y - 1969"] mod_shift [of 4 1968 y] by (simp add: algebra_simps)
  have 100: "(y + 1 - 1901) div 100 = (y - 1901) div 100 + (if y mod 100 = 0 then 1 else 0)"
    using div_succ [of 100 "y - 1901"] mod_shift [of 100 1900 y] by (simp add: algebra_simps)
  have 400: "(y + 1 - 1601) div 400 = (y - 1601) div 400 + (if y mod 400 = 0 then 1 else 0)"
    using div_succ [of 400 "y - 1601"] mod_shift [of 400 1600 y] by (simp add: algebra_simps)
  have a: "y mod 400 = 0 \<Longrightarrow> y mod 100 = 0"
    using mod_mod_cancel [of 100 400 y] by simp
  have b: "y mod 100 = 0 \<Longrightarrow> y mod 4 = 0"
    using mod_mod_cancel [of 4 100 y] by simp
  show ?thesis
    unfolding DayFromYear_def DaysInYear_def 4 100 400 using a b by auto
qed

lemma DaysInYear_bounds: "365 \<le> DaysInYear y \<and> DaysInYear y \<le> 366"
  by (simp add: DaysInYear_def)

lemma DayFromYear_1970: "DayFromYear 1970 = 0"
  by (simp add: DayFromYear_def)

lemma DayFromYear_mono: "y \<le> y' \<Longrightarrow> DayFromYear y \<le> DayFromYear y'"
proof (induction y' rule: int_ge_induct)
  case base
  show ?case by simp
next
  case (step i)
  then show ?case using DaysInYear_bounds [of i] by (simp add: DayFromYear_step)
qed

lemma DayFromYear_start_nonneg: "0 \<le> k \<Longrightarrow> DayFromYear (1970 + k) \<le> 366 * k"
proof (induction k rule: int_ge_induct)
  case base
  show ?case by (simp add: DayFromYear_1970)
next
  case (step i)
  have "DayFromYear (1970 + (i + 1)) = DayFromYear (1970 + i) + DaysInYear (1970 + i)"
    using DayFromYear_step [of "1970 + i"] by (simp add: add.assoc)
  then show ?case using step.IH DaysInYear_bounds [of "1970 + i"] by simp
qed

lemma DayFromYear_start_neg: "k \<le> 0 \<Longrightarrow> DayFromYear (1970 + k) \<le> 365 * k"
proof (induction k rule: int_le_induct)
  case base
  show ?case by (simp add: DayFromYear_1970)
next
  case (step i)
  have "DayFromYear (1970 + i) = DayFromYear (1970 + (i - 1)) + DaysInYear (1970 + (i - 1))"
    using DayFromYear_step [of "1970 + (i - 1)"] by simp
  then show ?case using step.IH DaysInYear_bounds [of "1970 + (i - 1)"] by simp
qed

lemma year_from_bounds:
  "DayFromYear y \<le> d \<Longrightarrow>
     DayFromYear (year_from y d) \<le> d \<and> d < DayFromYear (year_from y d + 1)"
proof (induction y d rule: year_from.induct)
  case (1 y d)
  show ?case
  proof (cases "DayFromYear (y + 1) \<le> d")
    case True
    then show ?thesis using "1.IH" by (subst (1 2) year_from.simps) simp
  next
    case False
    then show ?thesis using "1.prems" by (subst (1 2) year_from.simps) simp
  qed
qed

lemma YearFromTime_bounds:
  "DayFromYear (YearFromTime t) \<le> Day t \<and> Day t < DayFromYear (YearFromTime t + 1)"
proof -
  have "DayFromYear (1970 + (if 0 \<le> Day t then Day t div 366 else Day t div 365)) \<le> Day t"
  proof (cases "0 \<le> Day t")
    case True
    have "DayFromYear (1970 + Day t div 366) \<le> 366 * (Day t div 366)"
      using True by (intro DayFromYear_start_nonneg) simp
    also have "\<dots> \<le> Day t" by simp
    finally show ?thesis using True by simp
  next
    case False
    then have "Day t div 365 \<le> 0" by simp
    then have "DayFromYear (1970 + Day t div 365) \<le> 365 * (Day t div 365)"
      by (rule DayFromYear_start_neg)
    also have "\<dots> \<le> Day t" by simp
    finally show ?thesis using False by simp
  qed
  then show ?thesis unfolding YearFromTime_def by (rule year_from_bounds)
qed

text \<open>The year of a time value is the one the standard defines.\<close>

lemma YearFromTime_unique:
  "DayFromYear y \<le> Day t \<Longrightarrow> Day t < DayFromYear (y + 1) \<Longrightarrow> YearFromTime t = y"
proof (rule ccontr)
  assume a: "DayFromYear y \<le> Day t" "Day t < DayFromYear (y + 1)" and n: "YearFromTime t \<noteq> y"
  show False
  proof (cases "YearFromTime t < y")
    case True
    then have "DayFromYear (YearFromTime t + 1) \<le> DayFromYear y" by (intro DayFromYear_mono) simp
    then show False using a YearFromTime_bounds [of t] by simp
  next
    case False
    then have "DayFromYear (y + 1) \<le> DayFromYear (YearFromTime t)" using n by (intro DayFromYear_mono) simp
    then show False using a YearFromTime_bounds [of t] by simp
  qed
qed

lemma DayWithinYear_bounds:
  "0 \<le> DayWithinYear t \<and> DayWithinYear t < DaysInYear (YearFromTime t)"
  using YearFromTime_bounds [of t] by (simp add: DayWithinYear_def DayFromYear_step)

lemma MonthFromTime_bounds: "0 \<le> MonthFromTime t \<and> MonthFromTime t \<le> 11"
  by (simp add: MonthFromTime_def Let_def)

lemma MakeDay_fields:
  "MakeDay (YearFromTime t) (MonthFromTime t) (DateFromTime t + k) = Day t + k"
proof -
  have m: "MonthFromTime t div 12 = 0" "MonthFromTime t mod 12 = MonthFromTime t"
    using MonthFromTime_bounds [of t] by simp_all
  show ?thesis
    by (simp add: MakeDay_def Let_def m DateFromTime_def InLeapYear_def DayWithinYear_def)
qed

lemma DateFromTime_bounds: "1 \<le> DateFromTime t \<and> DateFromTime t \<le> 31"
proof -
  define d where "d = DayWithinYear t"
  define l :: int where "l = (if InLeapYear t then 1 else 0)"
  have d: "0 \<le> d" "d < 365 + l"
    using DayWithinYear_bounds [of t]
    by (auto simp: d_def l_def InLeapYear_def DaysInYear_def split: if_splits)
  have l: "l = 0 \<or> l = 1" by (simp add: l_def)
  have lp: "InLeapYear t = (l = 1)" by (simp add: l_def)
  have M: "MonthFromTime t =
      (if d < 31 then 0 else if d < 59 + l then 1 else if d < 90 + l then 2
       else if d < 120 + l then 3 else if d < 151 + l then 4 else if d < 181 + l then 5
       else if d < 212 + l then 6 else if d < 243 + l then 7 else if d < 273 + l then 8
       else if d < 304 + l then 9 else if d < 334 + l then 10 else 11)"
    by (simp add: MonthFromTime_def Let_def d_def l_def)
  have D: "DateFromTime t = d - month_start (l = 1) (MonthFromTime t) + 1"
    by (simp add: DateFromTime_def d_def lp)
  consider "d < 31" | "31 \<le> d" "d < 59 + l" | "59 + l \<le> d" "d < 90 + l"
    | "90 + l \<le> d" "d < 120 + l" | "120 + l \<le> d" "d < 151 + l" | "151 + l \<le> d" "d < 181 + l"
    | "181 + l \<le> d" "d < 212 + l" | "212 + l \<le> d" "d < 243 + l" | "243 + l \<le> d" "d < 273 + l"
    | "273 + l \<le> d" "d < 304 + l" | "304 + l \<le> d" "d < 334 + l" | "334 + l \<le> d"
    by linarith
  then show ?thesis
  proof cases
    case 1
    then have "MonthFromTime t = 0" by (simp add: M)
    then show ?thesis using 1 d l by (auto simp: D month_start_def)
  next
    case 2
    then have "MonthFromTime t = 1" using l by (auto simp: M)
    then show ?thesis using 2 d l by (auto simp: D month_start_def)
  next
    case 3
    then have "MonthFromTime t = 2" using l by (auto simp: M)
    then show ?thesis using 3 d l by (auto simp: D month_start_def)
  next
    case 4
    then have "MonthFromTime t = 3" using l by (auto simp: M)
    then show ?thesis using 4 d l by (auto simp: D month_start_def)
  next
    case 5
    then have "MonthFromTime t = 4" using l by (auto simp: M)
    then show ?thesis using 5 d l by (auto simp: D month_start_def)
  next
    case 6
    then have "MonthFromTime t = 5" using l by (auto simp: M)
    then show ?thesis using 6 d l by (auto simp: D month_start_def)
  next
    case 7
    then have "MonthFromTime t = 6" using l by (auto simp: M)
    then show ?thesis using 7 d l by (auto simp: D month_start_def)
  next
    case 8
    then have "MonthFromTime t = 7" using l by (auto simp: M)
    then show ?thesis using 8 d l by (auto simp: D month_start_def)
  next
    case 9
    then have "MonthFromTime t = 8" using l by (auto simp: M)
    then show ?thesis using 9 d l by (auto simp: D month_start_def)
  next
    case 10
    then have "MonthFromTime t = 9" using l by (auto simp: M)
    then show ?thesis using 10 d l by (auto simp: D month_start_def)
  next
    case 11
    then have "MonthFromTime t = 10" using l by (auto simp: M)
    then show ?thesis using 11 d l by (auto simp: D month_start_def)
  next
    case 12
    then have "MonthFromTime t = 11" using l by (auto simp: M)
    then show ?thesis using 12 d l by (auto simp: D month_start_def)
  qed
qed


lemma setDate_fixed_zone:
  assumes "fixed_offset z c"
  shows "setDate z t (getDate z t + k) = t + k * msPerDay"
proof -
  have z: "offset_at z u = c" "offset_of_local z u = c" for u
    using assms by (simp_all add: fixed_offset_def)
  have "MakeDate (Day (t + c) + k) (TimeWithinDay (t + c)) = t + c + k * msPerDay"
    by (simp add: MakeDate_def Day_def TimeWithinDay_def algebra_simps)
  then show ?thesis
    by (simp add: setDate_def getDate_def LocalTime_def UTC_def z Let_def MakeDay_fields)
qed

lemma digit_code: "0 \<le> a \<Longrightarrow> a \<le> 9 \<Longrightarrow> (of_char (digit a) :: int) = 48 + a"
proof -
  assume "0 \<le> a" "a \<le> 9"
  then have "a = 0 \<or> a = 1 \<or> a = 2 \<or> a = 3 \<or> a = 4 \<or> a = 5 \<or> a = 6 \<or> a = 7 \<or> a = 8 \<or> a = 9"
    by presburger
  then show ?thesis
    by (elim disjE) (simp_all add: digit_def)
qed

lemma digit_inj:
  assumes "0 \<le> a" "a \<le> 9" "0 \<le> b" "b \<le> 9" "digit a = digit b"
  shows "a = b"
proof -
  have "(of_char (digit a) :: int) = of_char (digit b)"
    by (simp only: assms(5))
  then have "48 + a = 48 + b"
    by (simp only: digit_code [OF assms(1,2)] digit_code [OF assms(3,4)])
  then show ?thesis by linarith
qed

lemma digit_mod_inj:
  assumes "digit (a mod 10) = digit (b mod 10)"
  shows "a mod 10 = b mod 10"
  by (rule digit_inj [OF _ _ _ _ assms]) simp_all

lemma pad2_inj:
  assumes "0 \<le> a" "a \<le> 99" "0 \<le> b" "b \<le> 99" "pad2 a = pad2 b"
  shows "a = b"
proof -
  have g: "digit (a div 10 mod 10) = digit (b div 10 mod 10)" "digit (a mod 10) = digit (b mod 10)"
    using assms(5) by (simp_all add: pad2_def)
  have d: "a div 10 mod 10 = b div 10 mod 10" "a mod 10 = b mod 10"
    by (rule digit_mod_inj [OF g(1)], rule digit_mod_inj [OF g(2)])
  have h: "a div 10 mod 10 = a div 10" "b div 10 mod 10 = b div 10"
    using assms(1-4) by simp_all
  have "a div 10 = a div 10 mod 10" by (rule h(1) [symmetric])
  also have "\<dots> = b div 10 mod 10" by (rule d(1))
  also have "\<dots> = b div 10" by (rule h(2))
  finally have "a div 10 = b div 10" .
  moreover have "a = 10 * (a div 10) + a mod 10" "b = 10 * (b div 10) + b mod 10"
    by simp_all
  ultimately show ?thesis using d(2) by linarith
qed

lemma div_100: "(x::int) div 100 = x div 10 div 10"
  using zdiv_zmult2_eq [of 10 x 10] by simp

lemma div_1000: "(x::int) div 1000 = x div 100 div 10"
  using zdiv_zmult2_eq [of 10 x 100] by simp

lemma decimal4:
  "(x::int) = 1000 * (x div 1000) + 100 * (x div 100 mod 10) + 10 * (x div 10 mod 10) + x mod 10"
proof -
  have 1: "x = 10 * (x div 10) + x mod 10" by simp
  have 2: "x div 10 = 10 * (x div 100) + x div 10 mod 10" by (simp add: div_100)
  have 3: "x div 100 = 10 * (x div 1000) + x div 100 mod 10" by (simp add: div_1000)
  show ?thesis using 1 2 3 by linarith
qed

lemma pad4_inj:
  assumes "0 \<le> a" "a \<le> 9999" "0 \<le> b" "b \<le> 9999" "pad4 a = pad4 b"
  shows "a = b"
proof -
  have g: "digit (a div 1000 mod 10) = digit (b div 1000 mod 10)"
       "digit (a div 100 mod 10) = digit (b div 100 mod 10)"
       "digit (a div 10 mod 10) = digit (b div 10 mod 10)"
       "digit (a mod 10) = digit (b mod 10)"
    using assms(5) by (simp_all add: pad4_def pad3_def pad2_def)
  have d: "a div 1000 mod 10 = b div 1000 mod 10" "a div 100 mod 10 = b div 100 mod 10"
       "a div 10 mod 10 = b div 10 mod 10" "a mod 10 = b mod 10"
    by (rule digit_mod_inj [OF g(1)], rule digit_mod_inj [OF g(2)],
        rule digit_mod_inj [OF g(3)], rule digit_mod_inj [OF g(4)])
  have h: "a div 1000 mod 10 = a div 1000" "b div 1000 mod 10 = b div 1000"
    using assms(1-4) by simp_all
  have "a div 1000 = a div 1000 mod 10" by (rule h(1) [symmetric])
  also have "\<dots> = b div 1000 mod 10" by (rule d(1))
  also have "\<dots> = b div 1000" by (rule h(2))
  finally have t: "a div 1000 = b div 1000" .
  show ?thesis
    using decimal4 [of a] decimal4 [of b] t d(2,3,4) by linarith
qed

lemma last14Days_fixed_zone:
  "fixed_offset z c \<Longrightarrow> last14Days z now = now - 13 * msPerDay"
  using setDate_fixed_zone [of z c now "- 13"] by (simp add: last14Days_def)

text \<open>
  In every zone \<^verbatim>\<open>setDate\<close> moves the local time by whole days, and the window
  starts at the instant whose local time is that of the request thirteen days earlier.
\<close>

lemma setDate_local: "setDate z t (getDate z t + k) = UTC z (LocalTime z t + k * msPerDay)"
proof -
  have "MakeDate (Day lt + k) (TimeWithinDay lt) = lt + k * msPerDay" for lt
    by (simp add: MakeDate_def Day_def TimeWithinDay_def algebra_simps)
  then show ?thesis
    by (simp add: setDate_def getDate_def Let_def MakeDay_fields)
qed

lemma last14Days_local: "last14Days z now = UTC z (LocalTime z now - 13 * msPerDay)"
  using setDate_local [of z now "- 13"] by (simp add: last14Days_def)

lemma bucket_day_fixed_zone:
  assumes "fixed_offset z c"
  shows "bucket_day z now index = take 10 (toISOString (now + (int index - 13) * msPerDay))"
proof -
  have "setDate z (last14Days z now) (getDate z (last14Days z now) + int index)
      = last14Days z now + int index * msPerDay"
    by (rule setDate_fixed_zone [OF assms])
  also have "\<dots> = now + (int index - 13) * msPerDay"
    by (simp add: last14Days_fixed_zone [OF assms] algebra_simps)
  finally show ?thesis
    by (simp only: bucket_day_def)
qed

lemma Day_shift: "Day (t + k * msPerDay) = Day t + k"
  by (simp add: Day_def msPerDay_def)

lemma Day_nonneg: "0 \<le> t \<Longrightarrow> 0 \<le> Day t"
  by (simp add: Day_def msPerDay_def)

lemma DayFromYear_10000: "DayFromYear 10000 = 2932897"
  by (simp add: DayFromYear_def)

lemma YearFromTime_range:
  assumes "0 \<le> t" "t < 253402300800000"
  shows "1970 \<le> YearFromTime t \<and> YearFromTime t \<le> 9999"
proof -
  have d: "0 \<le> Day t" "Day t < 2932897"
    using assms by (simp_all add: Day_def msPerDay_def)
  have b: "DayFromYear (YearFromTime t) \<le> Day t" "Day t < DayFromYear (YearFromTime t + 1)"
    using YearFromTime_bounds [of t] by simp_all
  have "1970 \<le> YearFromTime t"
  proof (rule ccontr)
    assume "\<not> 1970 \<le> YearFromTime t"
    then have "DayFromYear (YearFromTime t + 1) \<le> DayFromYear 1970"
      by (intro DayFromYear_mono) simp
    then show False using b(2) d(1) by (simp add: DayFromYear_1970)
  qed
  moreover have "YearFromTime t \<le> 9999"
  proof (rule ccontr)
    assume "\<not> YearFromTime t \<le> 9999"
    then have "DayFromYear 10000 \<le> DayFromYear (YearFromTime t)"
      by (intro DayFromYear_mono) simp
    then show False using b(1) d(2) by (simp add: DayFromYear_10000)
  qed
  ultimately show ?thesis by simp
qed

lemma iso_day:
  assumes "0 \<le> YearFromTime t" "YearFromTime t \<le> 9999"
  shows "take 10 (toISOString t) =
     pad4 (YearFromTime t) @ ''-'' @ pad2 (MonthFromTime t + 1) @ ''-'' @ pad2 (DateFromTime t)"
  using assms by (simp add: toISOString_def year_text_def pad4_def pad3_def pad2_def)

lemma iso_day_inj:
  assumes "0 \<le> YearFromTime t" "YearFromTime t \<le> 9999"
    and "0 \<le> YearFromTime t'" "YearFromTime t' \<le> 9999"
    and "take 10 (toISOString t) = take 10 (toISOString t')"
  shows "Day t = Day t'"
proof -
  have e: "pad4 (YearFromTime t) @ ''-'' @ pad2 (MonthFromTime t + 1) @ ''-'' @ pad2 (DateFromTime t)
      = pad4 (YearFromTime t') @ ''-'' @ pad2 (MonthFromTime t' + 1) @ ''-'' @ pad2 (DateFromTime t')"
    using assms(5) by (simp only: iso_day [OF assms(1,2)] iso_day [OF assms(3,4)])
  have l4: "length (pad4 x) = 4" for x by (simp add: pad4_def pad3_def pad2_def)
  have l2: "length (pad2 x) = 2" for x by (simp add: pad2_def)
  from e have y: "pad4 (YearFromTime t) = pad4 (YearFromTime t')"
    and r: "''-'' @ pad2 (MonthFromTime t + 1) @ ''-'' @ pad2 (DateFromTime t)
      = ''-'' @ pad2 (MonthFromTime t' + 1) @ ''-'' @ pad2 (DateFromTime t')"
    by (simp_all add: append_eq_append_conv l4)
  from r have m: "pad2 (MonthFromTime t + 1) = pad2 (MonthFromTime t' + 1)"
    and dd: "pad2 (DateFromTime t) = pad2 (DateFromTime t')"
    by (simp_all add: append_eq_append_conv l2)
  have Y: "YearFromTime t = YearFromTime t'"
    using assms(1-4) y by (rule pad4_inj)
  have "MonthFromTime t + 1 = MonthFromTime t' + 1"
    using MonthFromTime_bounds [of t] MonthFromTime_bounds [of t'] m
    by (intro pad2_inj) simp_all
  then have M: "MonthFromTime t = MonthFromTime t'" by simp
  have D: "DateFromTime t = DateFromTime t'"
    using DateFromTime_bounds [of t] DateFromTime_bounds [of t'] dd
    by (intro pad2_inj) simp_all
  have "Day t = MakeDay (YearFromTime t) (MonthFromTime t) (DateFromTime t)"
    using MakeDay_fields [of t 0] by simp
  also have "\<dots> = MakeDay (YearFromTime t') (MonthFromTime t') (DateFromTime t')"
    by (simp only: Y M D)
  also have "\<dots> = Day t'"
    using MakeDay_fields [of t' 0] by simp
  finally show ?thesis .
qed

lemma bucket_days_distinct:
  assumes "fixed_offset z c" "13 * msPerDay \<le> now" "now < 253402300800000"
  shows "distinct (map (bucket_day z now) [0..<14])"
proof -
  have "inj_on (bucket_day z now) (set [0..<14])"
  proof (rule inj_onI)
    fix i j assume i: "i \<in> set [0..<14]" and j: "j \<in> set [0..<14]"
      and e: "bucket_day z now i = bucket_day z now j"
    define ti where "ti = now + (int i - 13) * msPerDay"
    define tj where "tj = now + (int j - 13) * msPerDay"
    have ri: "0 \<le> ti" "ti < 253402300800000"
      using assms(2,3) i by (simp_all add: ti_def msPerDay_def)
    have rj: "0 \<le> tj" "tj < 253402300800000"
      using assms(2,3) j by (simp_all add: tj_def msPerDay_def)
    have "take 10 (toISOString ti) = take 10 (toISOString tj)"
      using e by (simp only: bucket_day_fixed_zone [OF assms(1)] ti_def tj_def)
    then have "Day ti = Day tj"
      using YearFromTime_range [OF ri] YearFromTime_range [OF rj]
      by (intro iso_day_inj) simp_all
    then have "Day now + (int i - 13) = Day now + (int j - 13)"
      by (simp only: ti_def tj_def Day_shift)
    then show "i = j" by simp
  qed
  then show ?thesis by (simp add: distinct_map)
qed

lemma year_2025: "1735689600000 \<le> t \<Longrightarrow> t < 1767225600000 \<Longrightarrow> YearFromTime t = 2025"
proof (rule YearFromTime_unique)
  assume a: "1735689600000 \<le> t" "t < 1767225600000"
  have "20089 \<le> t div 86400000" using a(1) by (simp add: pos_imp_zdiv_nonneg_iff zdiv_mono1 [of 1735689600000 t 86400000, simplified])
  then show "DayFromYear 2025 \<le> Day t" by (simp add: DayFromYear_def Day_def msPerDay_def)
  have "t div 86400000 < 20454" using a(2) by (simp add: div_less_iff_less_mult)
  then show "Day t < DayFromYear (2025 + 1)" by (simp add: DayFromYear_def Day_def msPerDay_def)
qed

lemmas iso_eval = toISOString_def year_text_def pad4_def pad3_def pad2_def digit_def MonthFromTime_def
  DateFromTime_def DayWithinYear_def InLeapYear_def Day_def msPerDay_def DayFromYear_def
  DaysInYear_def month_start_def Let_def

section \<open>The aggregation view: the daily trend\<close>

lemma init_buckets:
  "foldl (\<lambda>m k. js_map_set m k (0::nat)) [] keys = map (\<lambda>k. (k, 0)) (order_seen keys)"
proof (induction keys rule: rev_induct)
  case Nil
  show ?case by (simp add: order_seen_def)
next
  case (snoc k keys)
  have "js_map_set (map (\<lambda>k. (k, 0::nat)) (order_seen keys)) k 0
      = map (\<lambda>k. (k, 0)) (order_seen (keys @ [k]))"
    by (simp add: js_map_set_keyed order_seen_snoc)
  then show ?case using snoc.IH by simp
qed

lemma count_row_keyed:
  "distinct ks \<Longrightarrow>
   count_row (map (\<lambda>k. (k, f k)) ks) row =
     map (\<lambda>k. (k, f k + (if take 10 (created_at row) = k then 1 else 0))) ks"
  by (auto simp: count_row_def Let_def map_of_keyed js_map_set_keyed)

lemma foldl_count_row:
  "distinct ks \<Longrightarrow>
   foldl count_row (map (\<lambda>k. (k, f k)) ks) rows =
     map (\<lambda>k. (k, f k + length (filter (\<lambda>row. take 10 (created_at row) = k) rows))) ks"
proof (induction rows arbitrary: f)
  case Nil
  show ?case by simp
next
  case (Cons row rows)
  have "foldl count_row (map (\<lambda>k. (k, f k)) ks) (row # rows)
      = foldl count_row
          (map (\<lambda>k. (k, f k + (if take 10 (created_at row) = k then 1 else 0))) ks) rows"
    by (simp add: count_row_keyed [OF Cons.prems])
  also have "\<dots> = map (\<lambda>k. (k, f k + (if take 10 (created_at row) = k then 1 else 0)
               + length (filter (\<lambda>row. take 10 (created_at row) = k) rows))) ks"
    by (rule Cons.IH [OF Cons.prems])
  also have "\<dots> = map (\<lambda>k. (k, f k + length (filter (\<lambda>row. take 10 (created_at row) = k) (row # rows)))) ks"
    by simp
  finally show ?case .
qed

lemma dateBuckets_eq:
  "dateBuckets z now rows =
     map (\<lambda>k. (k, length (filter (\<lambda>row. take 10 (created_at row) = k) rows)))
       (order_seen (map (bucket_day z now) [0..<14]))"
proof -
  have "foldl (\<lambda>m index. js_map_set m (bucket_day z now index) (0::nat)) [] [0..<14]
      = foldl (\<lambda>m k. js_map_set m k 0) [] (map (bucket_day z now) [0..<14])"
    by (simp only: foldl_map)
  also have "\<dots> = map (\<lambda>k. (k, 0)) (order_seen (map (bucket_day z now) [0..<14]))"
    by (rule init_buckets)
  finally show ?thesis
    unfolding dateBuckets_def by (simp add: foldl_count_row)
qed

lemma sum_indicator:
  "distinct ks \<Longrightarrow> sum_list (map (\<lambda>k. if x = k then 1 else 0) ks) = (if x \<in> set ks then 1 else (0::nat))"
  by (induction ks) auto

lemma sum_counts:
  "distinct ks \<Longrightarrow>
   sum_list (map (\<lambda>k. length (filter (\<lambda>r. g r = k) rows)) ks) = length (filter (\<lambda>r. g r \<in> set ks) rows)"
proof (induction rows)
  case Nil
  show ?case by simp
next
  case (Cons r rows)
  have "sum_list (map (\<lambda>k. length (filter (\<lambda>r. g r = k) (r # rows))) ks)
      = sum_list (map (\<lambda>k. (if g r = k then 1 else 0) + length (filter (\<lambda>r. g r = k) rows)) ks)"
    by (intro arg_cong [where f = sum_list] map_cong) auto
  also have "\<dots> = sum_list (map (\<lambda>k. if g r = k then 1 else 0) ks)
      + sum_list (map (\<lambda>k. length (filter (\<lambda>r. g r = k) rows)) ks)"
    by (simp add: sum_list_addf)
  also have "\<dots> = (if g r \<in> set ks then 1 else 0) + length (filter (\<lambda>r. g r \<in> set ks) rows)"
    by (simp only: sum_indicator [OF Cons.prems] Cons.IH [OF Cons.prems])
  finally show ?case by simp
qed

lemma order_seen_distinct: "distinct xs \<Longrightarrow> order_seen xs = xs"
  by (simp add: order_seen_def distinct_remdups_id)

lemma length_order_seen: "length (order_seen xs) \<le> length xs"
  using length_remdups_leq [of "rev xs"] by (simp add: order_seen_def)

text \<open>
  The daily trend of a loaded page, for every zone and every time of the request: the
  series has one entry for each ISO date that the first loop makes a key of, at most
  fourteen, each date once; an entry counts the rows of the page whose
  \<^verbatim>\<open>created_at\<close> begins with its date, which is zero where there is none; and the
  entries sum to the number of rows of the page whose date is one of the keys. Where
  the offset of the server's zone from UTC never changes (a server on UTC) and the
  request is made between 14 January 1970 and the end of the year 9999, the series has
  exactly fourteen entries, in order the UTC dates of the fourteen days that end with
  the day of the request.
\<close>

lemma daily_trend:
  "length (dateBuckets z now rows) \<le> 14
   \<and> distinct (map fst (dateBuckets z now rows))
   \<and> set (map fst (dateBuckets z now rows)) = bucket_day z now ` {0..<14}
   \<and> (\<forall>e \<in> set (dateBuckets z now rows).
         snd e = length (filter (\<lambda>row. take 10 (created_at row) = fst e) rows))
   \<and> sum_list (map snd (dateBuckets z now rows))
       = length (filter (\<lambda>row. take 10 (created_at row) \<in> bucket_day z now ` {0..<14}) rows)
   \<and> (fixed_offset z c \<and> 13 * msPerDay \<le> now \<and> now < 253402300800000 \<longrightarrow>
        length (dateBuckets z now rows) = 14
        \<and> map fst (dateBuckets z now rows)
            = map (\<lambda>i. take 10 (toISOString (now + (int i - 13) * msPerDay))) [0..<14])"
proof -
  define keys where "keys = map (bucket_day z now) [0..<14]"
  define tally where "tally = (\<lambda>k. length (filter (\<lambda>row. take 10 (created_at row) = k) rows))"
  have eq: "dateBuckets z now rows = map (\<lambda>k. (k, tally k)) (order_seen keys)"
    by (simp add: dateBuckets_eq keys_def tally_def)
  have fst_eq: "map fst (dateBuckets z now rows) = order_seen keys"
    by (simp add: eq comp_def)
  have snd_eq: "map snd (dateBuckets z now rows) = map tally (order_seen keys)"
    by (simp add: eq comp_def)
  have set_keys: "set keys = bucket_day z now ` {0..<14}"
    by (simp add: keys_def)
  have "length (order_seen keys) \<le> length keys"
    by (rule length_order_seen)
  then have 1: "length (dateBuckets z now rows) \<le> 14"
    by (simp add: eq keys_def)
  have 2: "distinct (map fst (dateBuckets z now rows))"
    by (simp add: fst_eq)
  have 3: "set (map fst (dateBuckets z now rows)) = bucket_day z now ` {0..<14}"
    by (simp only: fst_eq set_order_seen set_keys)
  have 4: "\<forall>e \<in> set (dateBuckets z now rows).
         snd e = length (filter (\<lambda>row. take 10 (created_at row) = fst e) rows)"
    by (auto simp: eq tally_def)
  have "sum_list (map tally (order_seen keys))
      = length (filter (\<lambda>row. take 10 (created_at row) \<in> set (order_seen keys)) rows)"
    unfolding tally_def by (rule sum_counts) simp
  then have 5: "sum_list (map snd (dateBuckets z now rows))
       = length (filter (\<lambda>row. take 10 (created_at row) \<in> bucket_day z now ` {0..<14}) rows)"
    by (simp only: snd_eq set_order_seen set_keys)
  have 6: "length (dateBuckets z now rows) = 14
        \<and> map fst (dateBuckets z now rows)
            = map (\<lambda>i. take 10 (toISOString (now + (int i - 13) * msPerDay))) [0..<14]"
    if h: "fixed_offset z c \<and> 13 * msPerDay \<le> now \<and> now < 253402300800000"
  proof -
    have "distinct keys"
      unfolding keys_def using h by (intro bucket_days_distinct [of z c]) simp_all
    then have o: "order_seen keys = keys" by (rule order_seen_distinct)
    have k: "keys = map (\<lambda>i. take 10 (toISOString (now + (int i - 13) * msPerDay))) [0..<14]"
      unfolding keys_def using h by (intro map_cong refl bucket_day_fixed_zone [of z c]) simp
    have "length (dateBuckets z now rows) = length keys"
      by (simp add: eq o)
    then have "length (dateBuckets z now rows) = 14"
      by (simp add: keys_def)
    moreover have "map fst (dateBuckets z now rows)
        = map (\<lambda>i. take 10 (toISOString (now + (int i - 13) * msPerDay))) [0..<14]"
      by (simp only: fst_eq o k [symmetric])
    ultimately show ?thesis by simp
  qed
  from 1 2 3 4 5 6 show ?thesis by blast
qed

lemma berlin_last14: "last14Days berlin_2025 1743809400000 = 1742689800000"
  by (simp add: last14Days_local LocalTime_def UTC_def berlin_2025_def msPerDay_def)

lemma berlin_instant:
  "setDate berlin_2025 1742689800000 (getDate berlin_2025 1742689800000 + k)
     = UTC berlin_2025 (1742693400000 + k * 86400000)"
  by (simp add: setDate_local LocalTime_def berlin_2025_def msPerDay_def)

lemma upt14: "[0..<14] = [0, 1, 2, 3, 4, 5, 6, 7, 8, 9, 10, 11, 12, 13]"
  by code_simp

lemma berlin_bucket:
  "bucket_day berlin_2025 1743809400000 k
     = take 10 (toISOString (UTC berlin_2025 (1742693400000 + int k * 86400000)))"
  by (simp only: bucket_day_def berlin_last14 berlin_instant)

lemma berlin_iso:
  "take 10 (toISOString 1742689800000) = ''2025-03-23''"
  "take 10 (toISOString 1742776200000) = ''2025-03-24''"
  "take 10 (toISOString 1742862600000) = ''2025-03-25''"
  "take 10 (toISOString 1742949000000) = ''2025-03-26''"
  "take 10 (toISOString 1743035400000) = ''2025-03-27''"
  "take 10 (toISOString 1743121800000) = ''2025-03-28''"
  "take 10 (toISOString 1743208200000) = ''2025-03-29''"
  "take 10 (toISOString 1743294600000) = ''2025-03-30''"
  "take 10 (toISOString 1743377400000) = ''2025-03-30''"
  "take 10 (toISOString 1743463800000) = ''2025-03-31''"
  "take 10 (toISOString 1743550200000) = ''2025-04-01''"
  "take 10 (toISOString 1743636600000) = ''2025-04-02''"
  "take 10 (toISOString 1743723000000) = ''2025-04-03''"
  "take 10 (toISOString 1743809400000) = ''2025-04-04''"
  by (simp_all add: iso_eval year_2025)

lemma berlin_days:
  "map (bucket_day berlin_2025 1743809400000) [0..<14] =
     [''2025-03-23'', ''2025-03-24'', ''2025-03-25'', ''2025-03-26'', ''2025-03-27'',
      ''2025-03-28'', ''2025-03-29'', ''2025-03-30'', ''2025-03-30'', ''2025-03-31'',
      ''2025-04-01'', ''2025-04-02'', ''2025-04-03'', ''2025-04-04'']"
proof -
  have i: "map (\<lambda>k. UTC berlin_2025 (1742693400000 + int k * 86400000)) [0..<14] =
     [1742689800000, 1742776200000, 1742862600000, 1742949000000, 1743035400000,
      1743121800000, 1743208200000, 1743294600000, 1743377400000, 1743463800000,
      1743550200000, 1743636600000, 1743723000000, 1743809400000]"
    unfolding upt14 list.map by (simp add: UTC_def berlin_2025_def)
  have "map (bucket_day berlin_2025 1743809400000) [0..<14]
      = map (\<lambda>t. take 10 (toISOString t))
          (map (\<lambda>k. UTC berlin_2025 (1742693400000 + int k * 86400000)) [0..<14])"
    by (simp add: berlin_bucket)
  also have "\<dots> = [''2025-03-23'', ''2025-03-24'', ''2025-03-25'', ''2025-03-26'', ''2025-03-27'',
      ''2025-03-28'', ''2025-03-29'', ''2025-03-30'', ''2025-03-30'', ''2025-03-31'',
      ''2025-04-01'', ''2025-04-02'', ''2025-04-03'', ''2025-04-04'']"
    unfolding i by (simp only: list.map berlin_iso)
  finally show ?thesis .
qed

lemma init_map:
  "foldl (\<lambda>m index. js_map_set m (f index) (0::nat)) [] [0..<14]
     = foldl (\<lambda>m k. js_map_set m k 0) [] (map f [0..<14])"
  by (simp add: foldl_map)

text \<open>
  C6. The first loop steps through fourteen days of the server's local time and makes
  a key of the UTC date of each instant. Across a change of the clocks two of the
  instants can fall on one UTC date: in the zone Europe/Berlin, for a request at
  23:30 UTC on 4 April 2025 (01:30 local time on 5 April), the rounds 7 and 8 both make
  the key \<^verbatim>\<open>2025-03-30\<close>, and the series of every page has thirteen entries, where
  the claim has fourteen; for the empty page they are the thirteen zeros.
\<close>

theorem trend_across_clock_change:
  "map fst (dateBuckets berlin_2025 1743809400000 rows) =
     [''2025-03-23'', ''2025-03-24'', ''2025-03-25'', ''2025-03-26'', ''2025-03-27'',
      ''2025-03-28'', ''2025-03-29'', ''2025-03-30'', ''2025-03-31'', ''2025-04-01'',
      ''2025-04-02'', ''2025-04-03'', ''2025-04-04'']
   \<and> length (dateBuckets berlin_2025 1743809400000 rows) = 13
   \<and> dateBuckets berlin_2025 1743809400000 [] =
     [(''2025-03-23'', 0), (''2025-03-24'', 0), (''2025-03-25'', 0), (''2025-03-26'', 0),
      (''2025-03-27'', 0), (''2025-03-28'', 0), (''2025-03-29'', 0), (''2025-03-30'', 0),
      (''2025-03-31'', 0), (''2025-04-01'', 0), (''2025-04-02'', 0), (''2025-04-03'', 0),
      (''2025-04-04'', 0)]"
proof -
  have o: "order_seen (map (bucket_day berlin_2025 1743809400000) [0..<14]) =
     [''2025-03-23'', ''2025-03-24'', ''2025-03-25'', ''2025-03-26'', ''2025-03-27'',
      ''2025-03-28'', ''2025-03-29'', ''2025-03-30'', ''2025-03-31'', ''2025-04-01'',
      ''2025-04-02'', ''2025-04-03'', ''2025-04-04'']"
    unfolding berlin_days by (simp add: order_seen_def)
  have f: "map fst (dateBuckets berlin_2025 1743809400000 rows)
      = order_seen (map (bucket_day berlin_2025 1743809400000) [0..<14])"
    by (simp add: dateBuckets_eq comp_def)
  have 1: "map fst (dateBuckets berlin_2025 1743809400000 rows) =
     [''2025-03-23'', ''2025-03-24'', ''2025-03-25'', ''2025-03-26'', ''2025-03-27'',
      ''2025-03-28'', ''2025-03-29'', ''2025-03-30'', ''2025-03-31'', ''2025-04-01'',
      ''2025-04-02'', ''2025-04-03'', ''2025-04-04'']"
    by (simp only: f o)
  have "length (dateBuckets berlin_2025 1743809400000 rows)
      = length (map fst (dateBuckets berlin_2025 1743809400000 rows))"
    by simp
  also have "\<dots> = 13"
    by (simp add: f o)
  finally have 2: "length (dateBuckets berlin_2025 1743809400000 rows) = 13" .
  have 3: "dateBuckets berlin_2025 1743809400000 [] =
     [(''2025-03-23'', 0), (''2025-03-24'', 0), (''2025-03-25'', 0), (''2025-03-26'', 0),
      (''2025-03-27'', 0), (''2025-03-28'', 0), (''2025-03-29'', 0), (''2025-03-30'', 0),
      (''2025-03-31'', 0), (''2025-04-01'', 0), (''2025-04-02'', 0), (''2025-04-03'', 0),
      (''2025-04-04'', 0)]"
    unfolding dateBuckets_def init_map berlin_days by simp
  from 1 2 3 show ?thesis by blast
qed

section \<open>The aggregation view: the counts of the window\<close>








end
